theory Spec2Isabelle
  imports Complex_Main "HOL-Library.Word"
begin

section \<open>Arrays\<close>

text \<open>
  A two-dimensional numpy array is a list of rows. Coordinates are integers \<open>(y, x)\<close>
  (row, column), because the morphology below adds signed kernel offsets to them.
  \<open>shape\<close> lists the row lengths, so two arrays of equal shape have the same pixels
  in bounds. Floating-point values (numpy float32 and float64) are reals; the first
  definitions compute on them exactly, and the roundings of the code are added in the
  section on the arithmetic of the code.
\<close>

type_synonym 'a image = "'a list list"

definition shape :: "'a image \<Rightarrow> nat list" where
  "shape a = map length a"

definition is_image :: "'a image \<Rightarrow> bool" where
  "is_image a \<longleftrightarrow> a \<noteq> [] \<and> hd a \<noteq> [] \<and> list_all (\<lambda>r. length r = length (hd a)) a"

definition in_bounds :: "'a image \<Rightarrow> int \<Rightarrow> int \<Rightarrow> bool" where
  "in_bounds a y x \<longleftrightarrow>
     0 \<le> y \<and> y < int (length a) \<and> 0 \<le> x \<and> x < int (length (a ! nat y))"

definition px :: "'a image \<Rightarrow> int \<Rightarrow> int \<Rightarrow> 'a" where
  "px a y x = a ! nat y ! nat x"

text \<open>Elementwise operations (numpy broadcasting of a scalar is the unary case).\<close>

definition ew :: "('a \<Rightarrow> 'b) \<Rightarrow> 'a image \<Rightarrow> 'b image" where
  "ew f a = map (map f) a"

definition ew2 :: "('a \<Rightarrow> 'b \<Rightarrow> 'c) \<Rightarrow> 'a image \<Rightarrow> 'b image \<Rightarrow> 'c image" where
  "ew2 f a b = map2 (\<lambda>r s. map2 f r s) a b"

text \<open>An array of the shape of \<open>a\<close> whose pixel \<open>(y, x)\<close> is \<open>f y x\<close>.\<close>

definition tabulate :: "'a image \<Rightarrow> (int \<Rightarrow> int \<Rightarrow> 'b) \<Rightarrow> 'b image" where
  "tabulate a f =
     map (\<lambda>i. map (\<lambda>j. f (int i) (int j)) [0..<length (a ! i)]) [0..<length a]"

text \<open>\<open>np.zeros_like\<close>, \<open>np.ones_like\<close> and \<open>astype(np.float32)\<close> of a boolean array.\<close>

definition zeros_like :: "'a image \<Rightarrow> real image" where
  "zeros_like a = ew (\<lambda>_. 0) a"

definition ones_like :: "'a image \<Rightarrow> real image" where
  "ones_like a = ew (\<lambda>_. 1) a"

definition astype_float32 :: "bool image \<Rightarrow> real image" where
  "astype_float32 a = ew (\<lambda>b. if b then 1 else 0) a"

text \<open>\<open>M.any()\<close> and \<open>M.all()\<close>.\<close>

definition any_px :: "bool image \<Rightarrow> bool" where
  "any_px M = list_ex (list_ex (\<lambda>b. b)) M"

definition all_px :: "bool image \<Rightarrow> bool" where
  "all_px M = list_all (list_all (\<lambda>b. b)) M"

text \<open>\<open>np.clip(a, lo, hi)\<close> is \<open>minimum(maximum(a, lo), hi)\<close>.\<close>

definition clip :: "real \<Rightarrow> real \<Rightarrow> real \<Rightarrow> real" where
  "clip v lo hi = min (max v lo) hi"

text \<open>
  Boolean-mask assignment. \<open>a[m] = c\<close> stores the scalar \<open>c\<close> where \<open>m\<close> holds, and
  \<open>a[m] = v[m]\<close> copies the pixels of \<open>v\<close> where \<open>m\<close> holds.
\<close>

definition assign_scalar :: "'a image \<Rightarrow> bool image \<Rightarrow> 'a \<Rightarrow> 'a image" where
  "assign_scalar a m c = ew2 (\<lambda>v b. if b then c else v) a m"

definition assign_masked :: "'a image \<Rightarrow> bool image \<Rightarrow> 'a image \<Rightarrow> 'a image" where
  "assign_masked a m v = ew2 (\<lambda>old (b, new). if b then new else old) a (ew2 Pair m v)"

section \<open>The library calls\<close>

subsection \<open>OpenCV: structuring element, erosion, dilation\<close>

text \<open>
  \<open>cv2.getStructuringElement(cv2.MORPH_ELLIPSE, (k, k))\<close> is library code. It
  returns a \<open>k \<times> k\<close> array of 0/1 bytes, a filled ellipse inscribed in the square: with
  \<open>r = c = k div 2\<close>, row \<open>i\<close> has ones in the columns \<open>j1 \<le> j < j2\<close> where
  \<open>dy = i - r\<close>, \<open>dx = round (c * sqrt ((r\<^sup>2 - dy\<^sup>2) / r\<^sup>2))\<close> (0 when \<open>r = 0\<close>),
  \<open>j1 = max (c - dx) 0\<close> and \<open>j2 = min (c + dx + 1) k\<close>. Since \<open>c = r\<close> the
  rounded term is the nearest integer to \<open>sqrt (r\<^sup>2 - dy\<^sup>2)\<close>; the square root of an
  integer is never half-way between two integers, so it is the number of \<open>d \<ge> 1\<close>
  with \<open>(2 d - 1)\<^sup>2 \<le> 4 n\<close>.
\<close>

definition round_sqrt :: "nat \<Rightarrow> nat" where
  "round_sqrt n = length (filter (\<lambda>d. (2 * d - 1)\<^sup>2 \<le> 4 * n) [1..<n + 1])"

definition getStructuringElement_ellipse :: "nat \<Rightarrow> 8 word image" where
  "getStructuringElement_ellipse k =
     (let r = k div 2; c = k div 2 in
      map (\<lambda>i.
        let dy = int i - int r;
            dx = int (round_sqrt (nat (int r * int r - dy * dy)));
            j1 = max (int c - dx) 0;
            j2 = min (int c + dx + 1) (int k)
        in map (\<lambda>j. if j1 \<le> int j \<and> int j < j2 then 1 else 0) [0..<k]) [0..<k])"

text \<open>
  The offsets \<open>(dy, dx)\<close> of the non-zero kernel entries from the anchor, which
  defaults to the kernel's centre.
\<close>

definition kernel_offsets :: "8 word image \<Rightarrow> (int \<times> int) list" where
  "kernel_offsets se =
     concat (map (\<lambda>i. map (\<lambda>j. (int i - int (length se div 2), int j - int (length (se ! i) div 2)))
                          (filter (\<lambda>j. se ! i ! j \<noteq> 0) [0..<length (se ! i)]))
                 [0..<length se])"

text \<open>
  A pixel read with a constant border: outside the image the border value is returned.
  With the default border (\<open>BORDER_CONSTANT\<close>, \<open>morphologyDefaultBorderValue\<close>) erosion
  sees the largest byte there and dilation the smallest, so pixels outside the image
  never decide the result.
\<close>

definition px_border :: "'a image \<Rightarrow> 'a \<Rightarrow> int \<Rightarrow> int \<Rightarrow> 'a" where
  "px_border a d y x = (if in_bounds a y x then px a y x else d)"

definition erode :: "8 word image \<Rightarrow> 8 word image \<Rightarrow> 8 word image" where
  "erode src se =
     tabulate src (\<lambda>y x.
       fold min (map (\<lambda>(dy, dx). px_border src 255 (y + dy) (x + dx)) (kernel_offsets se)) 255)"

definition dilate :: "8 word image \<Rightarrow> 8 word image \<Rightarrow> 8 word image" where
  "dilate src se =
     tabulate src (\<lambda>y x.
       fold max (map (\<lambda>(dy, dx). px_border src 0 (y + dy) (x + dx)) (kernel_offsets se)) 0)"

text \<open>\<open>cv2.morphologyEx\<close> with \<open>MORPH_OPEN\<close> and \<open>MORPH_CLOSE\<close>, one iteration.\<close>

definition morphologyEx_OPEN :: "8 word image \<Rightarrow> 8 word image \<Rightarrow> 8 word image" where
  "morphologyEx_OPEN src se = dilate (erode src se) se"

definition morphologyEx_CLOSE :: "8 word image \<Rightarrow> 8 word image \<Rightarrow> 8 word image" where
  "morphologyEx_CLOSE src se = erode (dilate src se) se"

subsection \<open>SciPy: the Euclidean distance transform\<close>

text \<open>
  \<open>scipy.ndimage.distance_transform_edt(a)\<close> gives every pixel its Euclidean distance
  to the nearest zero (False) pixel of \<open>a\<close>. It is computed as the square root of the
  least squared distance, an integer. \<open>_feather\<close> calls it only on an array that has a
  False pixel; \<open>min_list []\<close> is left unspecified.
\<close>

definition zero_coords :: "bool image \<Rightarrow> (int \<times> int) list" where
  "zero_coords a =
     concat (map (\<lambda>i. map (\<lambda>j. (int i, int j)) (filter (\<lambda>j. \<not> a ! i ! j) [0..<length (a ! i)]))
                 [0..<length a])"

definition sq_dist :: "int \<Rightarrow> int \<Rightarrow> int \<times> int \<Rightarrow> int" where
  "sq_dist y x q = (y - fst q)\<^sup>2 + (x - snd q)\<^sup>2"

definition distance_transform_edt :: "bool image \<Rightarrow> real image" where
  "distance_transform_edt a =
     tabulate a (\<lambda>y x. sqrt (real_of_int (min_list (map (sq_dist y x) (zero_coords a)))))"

section \<open>Feathering\<close>

datatype FeatheringMethod =
  NONE | LINEAR | EXPONENTIAL | COSINE | SIGMOID | EASE_OUT_POWER | EASE_OUT_EXP

text \<open>The enumeration is a string enumeration: each member is equal to its value.\<close>

fun value_of :: "FeatheringMethod \<Rightarrow> string" where
  "value_of NONE = ''none''"
| "value_of LINEAR = ''linear''"
| "value_of EXPONENTIAL = ''exponential''"
| "value_of COSINE = ''cosine''"
| "value_of SIGMOID = ''sigmoid''"
| "value_of EASE_OUT_POWER = ''ease_out_power''"
| "value_of EASE_OUT_EXP = ''ease_out_exp''"

text \<open>
  \<open>_feather(mask, g, w)\<close>. The msk is boolean already, so \<open>mask.astype(bool)\<close> is the
  mask. \<open>D_out / w\<close> is a numpy division: for \<open>w = 0\<close> it gives inf or nan with a
  warning and raises nothing; HOL's \<open>d / 0 = 0\<close> differs there, and then no pixel is
  in the band, so \<open>t\<close> is never read.
\<close>

definition feather :: "bool image \<Rightarrow> (real \<Rightarrow> real) \<Rightarrow> real \<Rightarrow> real image" where
  "feather msk g w =
     (let M = msk in
      if \<not> any_px M then zeros_like msk
      else if all_px M then ones_like msk
      else
        let D_out = distance_transform_edt (ew Not M);
            t = ew (\<lambda>d. clip (d / w) 0 1) D_out;
            band = ew (\<lambda>d. d < w) D_out;
            ramp_vals = ew g t;
            alpha0 = zeros_like t;
            alpha1 = assign_scalar alpha0 M 1;
            alpha2 = assign_masked alpha1 (ew2 (\<and>) (ew Not M) band) ramp_vals
        in alpha2)"

text \<open>The six profiles, the lambdas of the \<open>feather_*\<close> functions.\<close>

definition g_linear :: "real \<Rightarrow> real" where
  "g_linear t = 1 - t"

definition g_exp :: "real \<Rightarrow> real" where
  "g_exp t = (let k = ln 100 in exp (- k * t))"

definition g_cos :: "real \<Rightarrow> real" where
  "g_cos t = 0.5 * (1 + cos (pi * t))"

definition g_sigmoid :: "real \<Rightarrow> real" where
  "g_sigmoid t = (let a = 12 in 1 / (1 + exp (a * (t - 0.5))))"

text \<open>\<open>np.power(t, 3.0)\<close> is the cube, also for a negative \<open>t\<close>.\<close>

definition g_ease_out_power :: "real \<Rightarrow> real" where
  "g_ease_out_power t = 1 - t ^ 3"

definition g_ease_out_exp :: "real \<Rightarrow> real" where
  "g_ease_out_exp t = (let k = ln 100 in exp (- k * t ^ 3))"

definition feather_linear :: "bool image \<Rightarrow> real \<Rightarrow> real image" where
  "feather_linear msk width = feather msk g_linear width"

definition feather_exp :: "bool image \<Rightarrow> real \<Rightarrow> real image" where
  "feather_exp msk width = feather msk g_exp width"

definition feather_cos :: "bool image \<Rightarrow> real \<Rightarrow> real image" where
  "feather_cos msk width = feather msk g_cos width"

definition feather_sigmoid :: "bool image \<Rightarrow> real \<Rightarrow> real image" where
  "feather_sigmoid msk width = feather msk g_sigmoid width"

definition feather_ease_out_power :: "bool image \<Rightarrow> real \<Rightarrow> real image" where
  "feather_ease_out_power msk width = feather msk g_ease_out_power width"

definition feather_ease_out_exp :: "bool image \<Rightarrow> real \<Rightarrow> real image" where
  "feather_ease_out_exp msk width = feather msk g_ease_out_exp width"

section \<open>Smoothing\<close>

text \<open>\<open>_to_u8\<close>: \<open>mask.astype(np.uint8) * 255\<close>; \<open>_to_bool\<close>: \<open>m_u8 > 0\<close>.\<close>

definition to_u8 :: "bool image \<Rightarrow> 8 word image" where
  "to_u8 msk = ew (\<lambda>b. (if b then 1 else 0) * 255) msk"

definition to_bool :: "8 word image \<Rightarrow> bool image" where
  "to_bool m_u8 = ew (\<lambda>v. v > 0) m_u8"

text \<open>
  \<open>_disk_kernel r\<close> asks OpenCV for the ellipse of size \<open>2 r + 1\<close>, and
  \<open>smooth_open_close\<close> opens and then closes with it. The radius is an explicit
  argument here; the Python default of the parameter (\<open>r = 2\<close>) is used by no caller.
\<close>

definition disk_kernel :: "nat \<Rightarrow> 8 word image" where
  "disk_kernel r = (let k = 2 * r + 1 in getStructuringElement_ellipse k)"

definition smooth_open_close :: "bool image \<Rightarrow> nat \<Rightarrow> bool image" where
  "smooth_open_close msk r =
     (let m = to_u8 msk;
          se = disk_kernel r;
          opened = morphologyEx_OPEN m se;
          closed = morphologyEx_CLOSE opened se
      in to_bool closed)"

section \<open>The entry point\<close>

text \<open>
  \<open>apply_feathering\<close> cleans with radius 4 first and then compares the method with the
  members of the enumeration in order; any other method raises \<open>ValueError\<close>. The method
  is a string, since a member of a string enumeration equals its value. The width is an
  explicit argument (the Python default is 10.0) and is never checked.
\<close>

datatype error = ValueError

definition apply_feathering :: "bool image \<Rightarrow> string \<Rightarrow> real \<Rightarrow> error + real image" where
  "apply_feathering raw method width =
     (let msk = smooth_open_close raw 4 in
      if method = value_of NONE then Inr (astype_float32 msk)
      else if method = value_of LINEAR then Inr (feather_linear msk width)
      else if method = value_of EXPONENTIAL then Inr (feather_exp msk width)
      else if method = value_of COSINE then Inr (feather_cos msk width)
      else if method = value_of SIGMOID then Inr (feather_sigmoid msk width)
      else if method = value_of EASE_OUT_POWER then Inr (feather_ease_out_power msk width)
      else if method = value_of EASE_OUT_EXP then Inr (feather_ease_out_exp msk width)
      else Inl ValueError)"

section \<open>The morphology on booleans\<close>

definition erode_bool :: "(int \<times> int) list \<Rightarrow> bool image \<Rightarrow> bool image" where
  "erode_bool K M =
     tabulate M (\<lambda>y x.
       list_all (\<lambda>(dy, dx). in_bounds M (y + dy) (x + dx) \<longrightarrow> px M (y + dy) (x + dx)) K)"

definition dilate_bool :: "(int \<times> int) list \<Rightarrow> bool image \<Rightarrow> bool image" where
  "dilate_bool K M =
     tabulate M (\<lambda>y x.
       list_ex (\<lambda>(dy, dx). in_bounds M (y + dy) (x + dx) \<and> px M (y + dy) (x + dx)) K)"

section \<open>The distance of the specification\<close>

text \<open>
  The specification's distance: the least Euclidean distance from a pixel to an interior
  (True) pixel of the mask.
\<close>

definition interior :: "bool image \<Rightarrow> (int \<times> int) set" where
  "interior M = {(y, x). in_bounds M y x \<and> px M y x}"

definition euclid :: "int \<Rightarrow> int \<Rightarrow> int \<times> int \<Rightarrow> real" where
  "euclid y x q = sqrt ((real_of_int (y - fst q))\<^sup>2 + (real_of_int (x - snd q))\<^sup>2)"

definition nearest_interior_distance :: "bool image \<Rightarrow> int \<Rightarrow> int \<Rightarrow> real" where
  "nearest_interior_distance M y x = Min (euclid y x ` interior M)"

section \<open>The dispatch table\<close>

text \<open>
  The profile that \<open>apply_feathering\<close> selects for a method, as a table;
  \<open>apply_feathering_profile\<close> below shows that the chain of comparisons computes it.
\<close>

fun profile_of :: "FeatheringMethod \<Rightarrow> (real \<Rightarrow> real) option" where
  "profile_of NONE = None"
| "profile_of LINEAR = Some g_linear"
| "profile_of EXPONENTIAL = Some g_exp"
| "profile_of COSINE = Some g_cos"
| "profile_of SIGMOID = Some g_sigmoid"
| "profile_of EASE_OUT_POWER = Some g_ease_out_power"
| "profile_of EASE_OUT_EXP = Some g_ease_out_exp"

section \<open>Test masks\<close>

text \<open>Test masks: a grid with one True pixel, and a row of five True pixels then ten False.\<close>

definition single_pixel :: "nat \<Rightarrow> nat \<Rightarrow> nat \<Rightarrow> nat \<Rightarrow> bool image" where
  "single_pixel h w cy cx = map (\<lambda>i. map (\<lambda>j. i = cy \<and> j = cx) [0..<w]) [0..<h]"

definition row15 :: "bool image" where
  "row15 = [[True, True, True, True, True,
             False, False, False, False, False, False, False, False, False, False]]"

section \<open>The arithmetic of the code\<close>

text \<open>
  The definitions of \<open>feather\<close> and \<open>apply_feathering\<close> above read the arithmetic of
  the code exactly. The code computes in floating point: the distance transform and the
  profiles in float64, and the matte is stored as float32. The definitions of this section
  repeat \<open>_feather\<close> and its callers with every rounding the code performs; they decide
  what the code does where the two readings differ, at the edge of the band.
\<close>

subsection \<open>Rounding\<close>

text \<open>
  \<open>fl_round p emin\<close> rounds a real to the nearest floating-point number of \<open>p\<close>
  significant bits, ties to the even mantissa, with subnormal numbers below the exponent
  \<open>emin\<close>. float64 is \<open>p = 53\<close>, \<open>emin = - 1022\<close> and float32 is \<open>p = 24\<close>,
  \<open>emin = - 126\<close>. There is no overflow to infinity in it: the distances are bounded by
  the image size, and a quotient \<open>D_out / w\<close> that overflows belongs to a pixel outside
  the band, whose \<open>t\<close> is never read.
\<close>

definition round_half_even :: "real \<Rightarrow> int" where
  "round_half_even v =
     (let f = \<lfloor>v\<rfloor>; d = v - real_of_int f in
      if d < 1 / 2 then f else if 1 / 2 < d then f + 1 else if even f then f else f + 1)"

definition fl_round :: "nat \<Rightarrow> int \<Rightarrow> real \<Rightarrow> real" where
  "fl_round p emin v =
     (if v = 0 then 0
      else let e = max \<lfloor>log 2 \<bar>v\<bar>\<rfloor> emin;
               u = 2 powr real_of_int (e - int p + 1)
           in real_of_int (round_half_even (v / u)) * u)"

definition f64 :: "real \<Rightarrow> real" where
  "f64 = fl_round 53 (- 1022)"

definition f32 :: "real \<Rightarrow> real" where
  "f32 = fl_round 24 (- 126)"

subsection \<open>The profiles in float64\<close>

text \<open>
  numpy's \<open>exp\<close>, \<open>log\<close>, \<open>cos\<close> and \<open>power\<close> on float64 are library code whose
  last bit is not specified; the profiles take them as a parameter. Every other operation
  of the lambdas is a float64 operation, rounded once. \<open>np.pi\<close> is the float64 nearest
  to \<open>pi\<close>. \<open>exact_numpy\<close> is the library without rounding errors, for the places that
  need a concrete one.
\<close>

record numpy =
  np_exp :: "real \<Rightarrow> real"
  np_log :: "real \<Rightarrow> real"
  np_cos :: "real \<Rightarrow> real"
  np_power :: "real \<Rightarrow> real \<Rightarrow> real"

definition exact_numpy :: numpy where
  "exact_numpy = \<lparr>np_exp = exp, np_log = ln, np_cos = cos, np_power = (\<lambda>v p. v powr p)\<rparr>"

definition g_linear_fp :: "real \<Rightarrow> real" where
  "g_linear_fp t = f64 (1 - t)"

definition g_exp_fp :: "numpy \<Rightarrow> real \<Rightarrow> real" where
  "g_exp_fp lib t = (let k = np_log lib 100 in np_exp lib (f64 (- k * t)))"

definition g_cos_fp :: "numpy \<Rightarrow> real \<Rightarrow> real" where
  "g_cos_fp lib t = f64 (0.5 * f64 (1 + np_cos lib (f64 (f64 pi * t))))"

definition g_sigmoid_fp :: "numpy \<Rightarrow> real \<Rightarrow> real" where
  "g_sigmoid_fp lib t =
     (let a = 12 in f64 (1 / f64 (1 + np_exp lib (f64 (a * f64 (t - 0.5))))))"

definition g_ease_out_power_fp :: "numpy \<Rightarrow> real \<Rightarrow> real" where
  "g_ease_out_power_fp lib t = (let p = 3 in f64 (1 - np_power lib t p))"

definition g_ease_out_exp_fp :: "numpy \<Rightarrow> real \<Rightarrow> real" where
  "g_ease_out_exp_fp lib t =
     (let q = 3; k = np_log lib 100 in np_exp lib (f64 (- k * np_power lib t q)))"

subsection \<open>\<open>_feather\<close> and its callers with the roundings\<close>

text \<open>
  SciPy takes the float64 square root of the exact squared distance; \<open>D_out / w\<close> is a
  float64 division; the band test \<open>D_out < w\<close> compares the rounded distance; and the
  assignment into the float32 array \<open>alpha\<close> rounds the ramp values to float32. The
  width is the float64 the caller passes; as above, for \<open>w = 0\<close> no pixel is in the
  band and the quotient is never read.
\<close>

definition distance_transform_edt_fp :: "bool image \<Rightarrow> real image" where
  "distance_transform_edt_fp a =
     tabulate a (\<lambda>y x. f64 (sqrt (real_of_int (min_list (map (sq_dist y x) (zero_coords a))))))"

definition feather_fp :: "bool image \<Rightarrow> (real \<Rightarrow> real) \<Rightarrow> real \<Rightarrow> real image" where
  "feather_fp msk g w =
     (let M = msk in
      if \<not> any_px M then zeros_like msk
      else if all_px M then ones_like msk
      else
        let D_out = distance_transform_edt_fp (ew Not M);
            t = ew (\<lambda>d. clip (f64 (d / w)) 0 1) D_out;
            band = ew (\<lambda>d. d < w) D_out;
            ramp_vals = ew g t;
            alpha0 = zeros_like t;
            alpha1 = assign_scalar alpha0 M 1;
            alpha2 = assign_masked alpha1 (ew2 (\<and>) (ew Not M) band) (ew f32 ramp_vals)
        in alpha2)"

definition feather_linear_fp :: "bool image \<Rightarrow> real \<Rightarrow> real image" where
  "feather_linear_fp msk width = feather_fp msk g_linear_fp width"

definition feather_exp_fp :: "numpy \<Rightarrow> bool image \<Rightarrow> real \<Rightarrow> real image" where
  "feather_exp_fp lib msk width = feather_fp msk (g_exp_fp lib) width"

definition feather_cos_fp :: "numpy \<Rightarrow> bool image \<Rightarrow> real \<Rightarrow> real image" where
  "feather_cos_fp lib msk width = feather_fp msk (g_cos_fp lib) width"

definition feather_sigmoid_fp :: "numpy \<Rightarrow> bool image \<Rightarrow> real \<Rightarrow> real image" where
  "feather_sigmoid_fp lib msk width = feather_fp msk (g_sigmoid_fp lib) width"

definition feather_ease_out_power_fp :: "numpy \<Rightarrow> bool image \<Rightarrow> real \<Rightarrow> real image" where
  "feather_ease_out_power_fp lib msk width = feather_fp msk (g_ease_out_power_fp lib) width"

definition feather_ease_out_exp_fp :: "numpy \<Rightarrow> bool image \<Rightarrow> real \<Rightarrow> real image" where
  "feather_ease_out_exp_fp lib msk width = feather_fp msk (g_ease_out_exp_fp lib) width"

definition apply_feathering_fp ::
    "numpy \<Rightarrow> bool image \<Rightarrow> string \<Rightarrow> real \<Rightarrow> error + real image" where
  "apply_feathering_fp lib raw method width =
     (let msk = smooth_open_close raw 4 in
      if method = value_of NONE then Inr (astype_float32 msk)
      else if method = value_of LINEAR then Inr (feather_linear_fp msk width)
      else if method = value_of EXPONENTIAL then Inr (feather_exp_fp lib msk width)
      else if method = value_of COSINE then Inr (feather_cos_fp lib msk width)
      else if method = value_of SIGMOID then Inr (feather_sigmoid_fp lib msk width)
      else if method = value_of EASE_OUT_POWER then Inr (feather_ease_out_power_fp lib msk width)
      else if method = value_of EASE_OUT_EXP then Inr (feather_ease_out_exp_fp lib msk width)
      else Inl ValueError)"

text \<open>The profile that \<open>apply_feathering_fp\<close> selects for a method.\<close>

fun profile_fp :: "numpy \<Rightarrow> FeatheringMethod \<Rightarrow> (real \<Rightarrow> real) option" where
  "profile_fp lib NONE = None"
| "profile_fp lib LINEAR = Some g_linear_fp"
| "profile_fp lib EXPONENTIAL = Some (g_exp_fp lib)"
| "profile_fp lib COSINE = Some (g_cos_fp lib)"
| "profile_fp lib SIGMOID = Some (g_sigmoid_fp lib)"
| "profile_fp lib EASE_OUT_POWER = Some (g_ease_out_power_fp lib)"
| "profile_fp lib EASE_OUT_EXP = Some (g_ease_out_exp_fp lib)"

section \<open>The default radius\<close>

text \<open>\<open>smooth_open_close(mask)\<close>, called without a radius: the parameter defaults to 2.\<close>

definition smooth_open_close_default :: "bool image \<Rightarrow> bool image" where
  "smooth_open_close_default msk = smooth_open_close msk 2"

section \<open>More test masks\<close>

text \<open>
  A 9 by 9 blob of the shape of the radius-4 structuring element, its transpose, and a
  row of three True pixels and seven False.
\<close>

definition blob9 :: "bool image" where
  "blob9 =
     [[False, False, False, False, True, False, False, False, False],
      [False, True, True, True, True, True, True, True, False],
      [False, True, True, True, True, True, True, True, False],
      [True, True, True, True, True, True, True, True, True],
      [True, True, True, True, True, True, True, True, True],
      [True, True, True, True, True, True, True, True, True],
      [False, True, True, True, True, True, True, True, False],
      [False, True, True, True, True, True, True, True, False],
      [False, False, False, False, True, False, False, False, False]]"

definition blob9_transposed :: "bool image" where
  "blob9_transposed =
     [[False, False, False, True, True, True, False, False, False],
      [False, True, True, True, True, True, True, True, False],
      [False, True, True, True, True, True, True, True, False],
      [False, True, True, True, True, True, True, True, False],
      [True, True, True, True, True, True, True, True, True],
      [False, True, True, True, True, True, True, True, False],
      [False, True, True, True, True, True, True, True, False],
      [False, True, True, True, True, True, True, True, False],
      [False, False, False, True, True, True, False, False, False]]"

definition row10 :: "bool image" where
  "row10 = [[True, True, True, False, False, False, False, False, False, False]]"

section \<open>Facts about arrays\<close>

lemma shape_ew: "shape (ew f a) = shape a"
  by (simp add: shape_def ew_def comp_def)

lemma shape_tabulate: "shape (tabulate a f) = shape a"
  by (auto simp: shape_def tabulate_def comp_def intro: nth_equalityI)

lemma shape_length: "shape a = shape b \<Longrightarrow> length a = length b"
  by (metis length_map shape_def)

lemma shape_row_length:
  "shape a = shape b \<Longrightarrow> i < length a \<Longrightarrow> length (a ! i) = length (b ! i)"
  by (metis length_map nth_map shape_def)

lemma shape_ew2: "shape a = shape b \<Longrightarrow> shape (ew2 f a b) = shape a"
proof -
  assume s: "shape a = shape b"
  have l: "length a = length b" using s by (rule shape_length)
  show ?thesis
    unfolding shape_def ew2_def
    by (rule nth_equalityI) (use l shape_row_length [OF s] in auto)
qed

lemma in_bounds_shape: "shape a = shape b \<Longrightarrow> in_bounds a y x = in_bounds b y x"
  unfolding in_bounds_def
  by (metis (no_types, opaque_lifting) nat_less_iff shape_length shape_row_length)

lemma px_ew: "in_bounds a y x \<Longrightarrow> px (ew f a) y x = f (px a y x)"
  by (auto simp: in_bounds_def px_def ew_def)

lemma px_tabulate: "in_bounds a y x \<Longrightarrow> px (tabulate a f) y x = f y x"
  by (auto simp: in_bounds_def px_def tabulate_def)

lemma px_ew2:
  "shape a = shape b \<Longrightarrow> in_bounds a y x \<Longrightarrow> px (ew2 f a b) y x = f (px a y x) (px b y x)"
proof -
  assume s: "shape a = shape b" and b: "in_bounds a y x"
  have l: "length a = length b" using s by (rule shape_length)
  have "nat y < length a" using b by (auto simp: in_bounds_def)
  moreover from this have "length (a ! nat y) = length (b ! nat y)" by (rule shape_row_length [OF s])
  moreover have "nat x < length (a ! nat y)" using b by (auto simp: in_bounds_def)
  ultimately show ?thesis using l by (simp add: px_def ew2_def)
qed

lemma image_eqI:
  assumes s: "shape a = shape b"
    and p: "\<And>y x. in_bounds a y x \<Longrightarrow> px a y x = px b y x"
  shows "a = b"
proof (rule nth_equalityI)
  show l: "length a = length b" using s by (rule shape_length)
  fix i assume i: "i < length a"
  show "a ! i = b ! i"
  proof (rule nth_equalityI)
    show "length (a ! i) = length (b ! i)" using s i by (rule shape_row_length)
    fix j assume j: "j < length (a ! i)"
    have "in_bounds a (int i) (int j)" using i j by (simp add: in_bounds_def)
    from p [OF this] show "a ! i ! j = b ! i ! j" by (simp add: px_def)
  qed
qed

lemma tabulate_px: "tabulate a (px a) = a"
  by (rule image_eqI) (simp_all add: shape_tabulate px_tabulate in_bounds_shape [OF shape_tabulate])

section \<open>Facts about feathering\<close>

lemma any_px_iff: "any_px M \<longleftrightarrow> (\<exists>y x. in_bounds M y x \<and> px M y x)"
proof
  assume "any_px M"
  then obtain r b where r: "r \<in> set M" and b: "b \<in> set r" and "b"
    by (auto simp: any_px_def list_ex_iff)
  from r obtain i where i: "i < length M" "M ! i = r" by (auto simp: in_set_conv_nth)
  from b obtain j where j: "j < length r" "r ! j = b" by (auto simp: in_set_conv_nth)
  have "in_bounds M (int i) (int j) \<and> px M (int i) (int j)"
    using i j \<open>b\<close> by (simp add: in_bounds_def px_def)
  then show "\<exists>y x. in_bounds M y x \<and> px M y x" by blast
next
  assume "\<exists>y x. in_bounds M y x \<and> px M y x"
  then obtain y x where "in_bounds M y x" "px M y x" by blast
  then have "nat y < length M" "nat x < length (M ! nat y)" "M ! nat y ! nat x"
    by (auto simp: in_bounds_def px_def)
  then show "any_px M"
    unfolding any_px_def list_ex_iff by (meson nth_mem)
qed

lemma all_px_iff: "all_px M \<longleftrightarrow> (\<forall>y x. in_bounds M y x \<longrightarrow> px M y x)"
proof
  assume a: "all_px M"
  show "\<forall>y x. in_bounds M y x \<longrightarrow> px M y x"
  proof (intro allI impI)
    fix y x assume "in_bounds M y x"
    then have "nat y < length M" "nat x < length (M ! nat y)" by (auto simp: in_bounds_def)
    then show "px M y x" using a unfolding all_px_def list_all_iff px_def by (meson nth_mem)
  qed
next
  assume h: "\<forall>y x. in_bounds M y x \<longrightarrow> px M y x"
  show "all_px M"
    unfolding all_px_def list_all_iff
  proof (intro ballI)
    fix r b assume "r \<in> set M" "b \<in> set r"
    then obtain i j where "i < length M" "M ! i = r" "j < length r" "r ! j = b"
      by (auto simp: in_set_conv_nth)
    then have "in_bounds M (int i) (int j)" "px M (int i) (int j) = b"
      by (simp_all add: in_bounds_def px_def)
    with h show b by blast
  qed
qed

lemma zeros_like_px: "in_bounds a y x \<Longrightarrow> px (zeros_like a) y x = 0"
  by (simp add: zeros_like_def px_ew)

lemma ones_like_px: "in_bounds a y x \<Longrightarrow> px (ones_like a) y x = 1"
  by (simp add: ones_like_def px_ew)

lemma astype_float32_px:
  "in_bounds a y x \<Longrightarrow> px (astype_float32 a) y x = (if px a y x then 1 else 0)"
  by (simp add: astype_float32_def px_ew)

lemma shape_zeros_like: "shape (zeros_like a) = shape a"
  by (simp add: zeros_like_def shape_ew)

lemma shape_ones_like: "shape (ones_like a) = shape a"
  by (simp add: ones_like_def shape_ew)

lemma shape_astype_float32: "shape (astype_float32 a) = shape a"
  by (simp add: astype_float32_def shape_ew)

lemma shape_assign_scalar: "shape a = shape m \<Longrightarrow> shape (assign_scalar a m c) = shape a"
  by (simp add: assign_scalar_def shape_ew2)

lemma shape_assign_masked:
  "shape a = shape m \<Longrightarrow> shape m = shape v \<Longrightarrow> shape (assign_masked a m v) = shape a"
  by (simp add: assign_masked_def shape_ew2)

lemma px_assign_scalar:
  "shape a = shape m \<Longrightarrow> in_bounds a y x \<Longrightarrow>
   px (assign_scalar a m c) y x = (if px m y x then c else px a y x)"
  by (simp add: assign_scalar_def px_ew2)

lemma px_assign_masked:
  assumes "shape a = shape m" "shape m = shape v" "in_bounds a y x"
  shows "px (assign_masked a m v) y x = (if px m y x then px v y x else px a y x)"
proof -
  have "in_bounds m y x" using assms in_bounds_shape by blast
  then show ?thesis using assms by (simp add: assign_masked_def px_ew2 shape_ew2)
qed

text \<open>The non-degenerate branch of \<open>_feather\<close>, pixel by pixel.\<close>

lemma shape_feather: "shape (feather M g w) = shape M"
  by (simp add: feather_def Let_def shape_zeros_like shape_ones_like shape_assign_masked
      shape_assign_scalar shape_ew shape_ew2 shape_tabulate distance_transform_edt_def)

lemma px_feather:
  assumes "any_px M" "\<not> all_px M" "in_bounds M y x"
  shows "px (feather M g w) y x =
    (let D = px (distance_transform_edt (ew Not M)) y x in
     if px M y x then 1 else if D < w then g (clip (D / w) 0 1) else 0)"
proof -
  define D_out where "D_out = distance_transform_edt (ew Not M)"
  define t where "t = ew (\<lambda>d. clip (d / w) 0 1) D_out"
  define band where "band = ew (\<lambda>d. d < w) D_out"
  define ramp_vals where "ramp_vals = ew g t"
  define alpha0 where "alpha0 = zeros_like t"
  define alpha1 where "alpha1 = assign_scalar alpha0 M 1"
  define sel where "sel = ew2 (\<and>) (ew Not M) band"
  have sD: "shape D_out = shape M"
    by (simp add: D_out_def distance_transform_edt_def shape_tabulate shape_ew)
  have st: "shape t = shape M" by (simp add: t_def shape_ew sD)
  have sb: "shape band = shape M" by (simp add: band_def shape_ew sD)
  have sr: "shape ramp_vals = shape M" by (simp add: ramp_vals_def shape_ew st)
  have s0: "shape alpha0 = shape M" by (simp add: alpha0_def shape_zeros_like st)
  have s1: "shape alpha1 = shape M" by (simp add: alpha1_def shape_assign_scalar s0)
  have sn: "shape (ew Not M) = shape M" by (rule shape_ew)
  have ss: "shape sel = shape M" by (simp add: sel_def shape_ew2 sn sb)
  note b = assms(3)
  have bD: "in_bounds D_out y x" using b in_bounds_shape [OF sD] by simp
  have bt: "in_bounds t y x" using b in_bounds_shape [OF st] by simp
  have b0: "in_bounds alpha0 y x" using b in_bounds_shape [OF s0] by simp
  have b1: "in_bounds alpha1 y x" using b in_bounds_shape [OF s1] by simp
  have bn: "in_bounds (ew Not M) y x" using b in_bounds_shape [OF sn] by simp
  have pt: "px t y x = clip (px D_out y x / w) 0 1" by (simp add: t_def px_ew bD)
  have pb: "px band y x = (px D_out y x < w)" by (simp add: band_def px_ew bD)
  have pr: "px ramp_vals y x = g (clip (px D_out y x / w) 0 1)"
    by (simp add: ramp_vals_def px_ew bt pt)
  have p0: "px alpha0 y x = 0" by (simp add: alpha0_def zeros_like_px bt)
  have p1: "px alpha1 y x = (if px M y x then 1 else 0)"
    by (simp add: alpha1_def px_assign_scalar s0 b0 p0)
  have ps: "px sel y x = (\<not> px M y x \<and> px D_out y x < w)"
    by (simp add: sel_def px_ew2 sn sb bn px_ew b pb)
  have "feather M g w = assign_masked alpha1 sel ramp_vals"
    using assms(1,2)
    by (simp add: feather_def Let_def D_out_def t_def band_def ramp_vals_def alpha0_def
        alpha1_def sel_def)
  moreover have "px (assign_masked alpha1 sel ramp_vals) y x =
      (if px sel y x then px ramp_vals y x else px alpha1 y x)"
    by (rule px_assign_masked) (simp_all add: s1 ss sr b1)
  ultimately show ?thesis
    by (simp add: ps pr p1 D_out_def Let_def)
qed

section \<open>Facts about the distance transform\<close>

lemma set_zero_coords: "set (zero_coords a) = {(y, x). in_bounds a y x \<and> \<not> px a y x}"
proof (rule set_eqI)
  fix p :: "int \<times> int"
  obtain y x where p: "p = (y, x)" by (cases p)
  have "(y, x) \<in> set (zero_coords a) \<longleftrightarrow>
        (\<exists>i < length a. \<exists>j < length (a ! i). \<not> a ! i ! j \<and> y = int i \<and> x = int j)"
    by (auto simp: zero_coords_def)
  also have "\<dots> \<longleftrightarrow> in_bounds a y x \<and> \<not> px a y x"
  proof
    assume "\<exists>i < length a. \<exists>j < length (a ! i). \<not> a ! i ! j \<and> y = int i \<and> x = int j"
    then show "in_bounds a y x \<and> \<not> px a y x" by (auto simp: in_bounds_def px_def)
  next
    assume h: "in_bounds a y x \<and> \<not> px a y x"
    then have "nat y < length a" "nat x < length (a ! nat y)" "\<not> a ! nat y ! nat x"
      "y = int (nat y)" "x = int (nat x)"
      by (auto simp: in_bounds_def px_def)
    then show "\<exists>i < length a. \<exists>j < length (a ! i). \<not> a ! i ! j \<and> y = int i \<and> x = int j"
      by blast
  qed
  finally show "p \<in> set (zero_coords a) \<longleftrightarrow> p \<in> {(y, x). in_bounds a y x \<and> \<not> px a y x}"
    by (simp add: p)
qed

lemma set_zero_coords_Not: "set (zero_coords (ew Not M)) = interior M"
proof -
  have "\<And>y x. in_bounds (ew Not M) y x = in_bounds M y x"
    by (rule in_bounds_shape) (rule shape_ew)
  then show ?thesis
    by (auto simp: set_zero_coords interior_def px_ew)
qed

lemma interior_nonempty: "any_px M \<longleftrightarrow> interior M \<noteq> {}"
  by (auto simp: any_px_iff interior_def)

lemma finite_interior: "finite (interior M)"
  by (metis List.finite_set set_zero_coords_Not)

lemma euclid_sq_dist: "euclid y x q = sqrt (real_of_int (sq_dist y x q))"
  by (simp add: euclid_def sq_dist_def)

lemma sq_dist_nonneg: "0 \<le> sq_dist y x q"
  by (simp add: sq_dist_def)

lemma px_edt:
  "in_bounds M y x \<Longrightarrow>
   px (distance_transform_edt (ew Not M)) y x =
     sqrt (real_of_int (min_list (map (sq_dist y x) (zero_coords (ew Not M)))))"
  by (simp add: distance_transform_edt_def px_tabulate in_bounds_shape [OF shape_ew])

lemma edt_exact:
  assumes "any_px M" "in_bounds M y x"
  shows "px (distance_transform_edt (ew Not M)) y x = nearest_interior_distance M y x"
proof -
  let ?zs = "zero_coords (ew Not M)"
  have ne: "?zs \<noteq> []"
    using assms(1) by (metis interior_nonempty set_zero_coords_Not set_empty)
  have fin: "finite (sq_dist y x ` interior M)" using finite_interior by blast
  have nee: "sq_dist y x ` interior M \<noteq> {}" using assms(1) by (simp add: interior_nonempty)
  have "min_list (map (sq_dist y x) ?zs) = Min (sq_dist y x ` interior M)"
    using ne by (simp add: min_list_Min set_zero_coords_Not)
  moreover have "sqrt (real_of_int (Min (sq_dist y x ` interior M))) =
      Min ((\<lambda>n. sqrt (real_of_int n)) ` (sq_dist y x ` interior M))"
    by (rule mono_Min_commute [OF _ fin nee]) (simp add: mono_def)
  moreover have "(\<lambda>n. sqrt (real_of_int n)) ` (sq_dist y x ` interior M) = euclid y x ` interior M"
    by (simp add: image_image euclid_sq_dist)
  ultimately show ?thesis
    by (simp add: px_edt assms(2) nearest_interior_distance_def)
qed

lemma nearest_interior_distance_attained:
  assumes "any_px M"
  shows "\<exists>q \<in> interior M. nearest_interior_distance M y x = euclid y x q \<and>
           (\<forall>q' \<in> interior M. euclid y x q \<le> euclid y x q')"
proof -
  have fin: "finite (euclid y x ` interior M)" using finite_interior by blast
  have ne: "euclid y x ` interior M \<noteq> {}" using assms by (simp add: interior_nonempty)
  have "Min (euclid y x ` interior M) \<in> euclid y x ` interior M" using fin ne by (rule Min_in)
  then obtain q where q: "q \<in> interior M" "Min (euclid y x ` interior M) = euclid y x q"
    by auto
  have "\<forall>q' \<in> interior M. euclid y x q \<le> euclid y x q'"
    using fin q(2) by (metis Min_le imageI)
  with q show ?thesis unfolding nearest_interior_distance_def by blast
qed

lemma euclid_nonneg: "0 \<le> euclid y x q"
  by (simp add: euclid_def)

lemma edt_nonneg:
  assumes "any_px M" "in_bounds M y x"
  shows "0 \<le> px (distance_transform_edt (ew Not M)) y x"
  using nearest_interior_distance_attained [OF assms(1), of y x] edt_exact [OF assms]
  by (auto simp: euclid_nonneg)

section \<open>Facts about the morphology\<close>

text \<open>Erosion and dilation of a 0/255 image, read as booleans.\<close>

lemma fold_min_u8:
  assumes "\<And>v. v \<in> set vs \<Longrightarrow> v = 0 \<or> v = (255 :: 8 word)"
  shows "fold min vs 255 = (if list_all (\<lambda>v. v = 255) vs then 255 else 0)"
proof -
  have "\<And>acc. acc = 0 \<or> acc = 255 \<Longrightarrow>
      fold min vs acc = (if acc = 255 \<and> list_all (\<lambda>v. v = 255) vs then 255 else (0 :: 8 word))"
    using assms
  proof (induction vs)
    case Nil
    then show ?case by auto
  next
    case (Cons v vs)
    have v: "v = 0 \<or> v = 255" using Cons.prems(2) by simp
    have m: "min v acc = 0 \<or> min v acc = 255" using v Cons.prems(1) by auto
    have "fold min vs (min v acc) =
        (if min v acc = 255 \<and> list_all (\<lambda>v. v = 255) vs then 255 else 0)"
      by (rule Cons.IH [OF m]) (use Cons.prems(2) in simp)
    moreover have "min v acc = 255 \<longleftrightarrow> v = 255 \<and> acc = 255"
      using v Cons.prems(1) by auto
    ultimately show ?case by auto
  qed
  then show ?thesis by simp
qed

lemma fold_max_u8:
  assumes "\<And>v. v \<in> set vs \<Longrightarrow> v = 0 \<or> v = (255 :: 8 word)"
  shows "fold max vs 0 = (if list_ex (\<lambda>v. v = 255) vs then 255 else 0)"
proof -
  have "\<And>acc. acc = 0 \<or> acc = 255 \<Longrightarrow>
      fold max vs acc = (if acc = 255 \<or> list_ex (\<lambda>v. v = 255) vs then 255 else (0 :: 8 word))"
    using assms
  proof (induction vs)
    case Nil
    then show ?case by auto
  next
    case (Cons v vs)
    have v: "v = 0 \<or> v = 255" using Cons.prems(2) by simp
    have m: "max v acc = 0 \<or> max v acc = 255" using v Cons.prems(1) by auto
    have "fold max vs (max v acc) =
        (if max v acc = 255 \<or> list_ex (\<lambda>v. v = 255) vs then 255 else 0)"
      by (rule Cons.IH [OF m]) (use Cons.prems(2) in simp)
    moreover have "max v acc = 255 \<longleftrightarrow> v = 255 \<or> acc = 255"
      using v Cons.prems(1) by auto
    ultimately show ?case by auto
  qed
  then show ?thesis by simp
qed

lemma shape_to_u8: "shape (to_u8 M) = shape M"
  by (simp add: to_u8_def shape_ew)

lemma in_bounds_to_u8: "in_bounds (to_u8 M) y x = in_bounds M y x"
  by (rule in_bounds_shape) (rule shape_to_u8)

lemma px_to_u8: "in_bounds M y x \<Longrightarrow> px (to_u8 M) y x = (if px M y x then 255 else 0)"
  by (simp add: to_u8_def px_ew)

lemma to_bool_to_u8: "to_bool (to_u8 M) = M"
  by (simp add: to_bool_def to_u8_def ew_def comp_def map_idI)

lemma shape_erode_bool: "shape (erode_bool K M) = shape M"
  by (simp add: erode_bool_def shape_tabulate)

lemma shape_dilate_bool: "shape (dilate_bool K M) = shape M"
  by (simp add: dilate_bool_def shape_tabulate)

lemma px_erode_bool:
  "in_bounds M y x \<Longrightarrow>
   px (erode_bool K M) y x =
     (\<forall>(dy, dx) \<in> set K. in_bounds M (y + dy) (x + dx) \<longrightarrow> px M (y + dy) (x + dx))"
  by (simp add: erode_bool_def px_tabulate list_all_iff)

lemma px_dilate_bool:
  "in_bounds M y x \<Longrightarrow>
   px (dilate_bool K M) y x =
     (\<exists>(dy, dx) \<in> set K. in_bounds M (y + dy) (x + dx) \<and> px M (y + dy) (x + dx))"
  by (simp add: dilate_bool_def px_tabulate list_ex_iff)

lemma list_all_map_u8:
  "list_all (\<lambda>v. v = (255 :: 8 word)) (map (\<lambda>p. if P p then 255 else 0) K) = list_all P K"
  by (induction K) auto

lemma list_ex_map_u8:
  "list_ex (\<lambda>v. v = (255 :: 8 word)) (map (\<lambda>p. if P p then 255 else 0) K) = list_ex P K"
  by (induction K) auto

lemma erode_to_u8: "erode (to_u8 M) se = to_u8 (erode_bool (kernel_offsets se) M)"
proof (rule image_eqI)
  show "shape (erode (to_u8 M) se) = shape (to_u8 (erode_bool (kernel_offsets se) M))"
    by (simp add: erode_def shape_tabulate shape_to_u8 shape_erode_bool)
next
  fix y x assume "in_bounds (erode (to_u8 M) se) y x"
  then have b: "in_bounds M y x"
    by (simp add: erode_def in_bounds_shape [OF shape_tabulate] in_bounds_to_u8)
  let ?K = "kernel_offsets se"
  let ?vs = "map (\<lambda>(dy, dx). px_border (to_u8 M) 255 (y + dy) (x + dx)) ?K"
  have v: "\<And>dy dx. px_border (to_u8 M) 255 (y + dy) (x + dx) =
      (if in_bounds M (y + dy) (x + dx) \<longrightarrow> px M (y + dy) (x + dx) then 255 else 0)"
    by (simp add: px_border_def in_bounds_to_u8 px_to_u8)
  have "px (erode (to_u8 M) se) y x = fold min ?vs 255"
    using b by (simp add: erode_def px_tabulate in_bounds_to_u8)
  also have "\<dots> = (if list_all (\<lambda>v. v = 255) ?vs then 255 else 0)"
  proof (rule fold_min_u8)
    fix u assume "u \<in> set ?vs"
    then obtain dy dx where "u = px_border (to_u8 M) 255 (y + dy) (x + dx)" by auto
    then show "u = 0 \<or> u = 255" unfolding v by (rule ssubst) simp
  qed
  also have "list_all (\<lambda>v. v = 255) ?vs \<longleftrightarrow> px (erode_bool ?K M) y x"
  proof -
    have "?vs = map (\<lambda>p. if in_bounds M (y + fst p) (x + snd p) \<longrightarrow> px M (y + fst p) (x + snd p)
                          then 255 else 0) ?K"
      by (simp add: v split_beta)
    then show ?thesis
      using b by (simp only: list_all_map_u8) (simp add: erode_bool_def px_tabulate case_prod_unfold)
  qed
  finally show "px (erode (to_u8 M) se) y x = px (to_u8 (erode_bool ?K M)) y x"
    using b by (simp add: px_to_u8 in_bounds_shape [OF shape_erode_bool])
qed

lemma dilate_to_u8: "dilate (to_u8 M) se = to_u8 (dilate_bool (kernel_offsets se) M)"
proof (rule image_eqI)
  show "shape (dilate (to_u8 M) se) = shape (to_u8 (dilate_bool (kernel_offsets se) M))"
    by (simp add: dilate_def shape_tabulate shape_to_u8 shape_dilate_bool)
next
  fix y x assume "in_bounds (dilate (to_u8 M) se) y x"
  then have b: "in_bounds M y x"
    by (simp add: dilate_def in_bounds_shape [OF shape_tabulate] in_bounds_to_u8)
  let ?K = "kernel_offsets se"
  let ?vs = "map (\<lambda>(dy, dx). px_border (to_u8 M) 0 (y + dy) (x + dx)) ?K"
  have v: "\<And>dy dx. px_border (to_u8 M) 0 (y + dy) (x + dx) =
      (if in_bounds M (y + dy) (x + dx) \<and> px M (y + dy) (x + dx) then 255 else 0)"
    by (simp add: px_border_def in_bounds_to_u8 px_to_u8)
  have "px (dilate (to_u8 M) se) y x = fold max ?vs 0"
    using b by (simp add: dilate_def px_tabulate in_bounds_to_u8)
  also have "\<dots> = (if list_ex (\<lambda>v. v = 255) ?vs then 255 else 0)"
  proof (rule fold_max_u8)
    fix u assume "u \<in> set ?vs"
    then obtain dy dx where "u = px_border (to_u8 M) 0 (y + dy) (x + dx)" by auto
    then show "u = 0 \<or> u = 255" unfolding v by (rule ssubst) simp
  qed
  also have "list_ex (\<lambda>v. v = 255) ?vs \<longleftrightarrow> px (dilate_bool ?K M) y x"
  proof -
    have "?vs = map (\<lambda>p. if in_bounds M (y + fst p) (x + snd p) \<and> px M (y + fst p) (x + snd p)
                          then 255 else 0) ?K"
      by (simp add: v split_beta)
    then show ?thesis
      using b by (simp only: list_ex_map_u8) (simp add: dilate_bool_def px_tabulate case_prod_unfold)
  qed
  finally show "px (dilate (to_u8 M) se) y x = px (to_u8 (dilate_bool ?K M)) y x"
    using b by (simp add: px_to_u8 in_bounds_shape [OF shape_dilate_bool])
qed

lemma smooth_open_close_bool:
  "smooth_open_close M r =
     (let K = kernel_offsets (disk_kernel r) in
      erode_bool K (dilate_bool K (dilate_bool K (erode_bool K M))))"
  by (simp add: smooth_open_close_def Let_def morphologyEx_OPEN_def morphologyEx_CLOSE_def
      erode_to_u8 dilate_to_u8 to_bool_to_u8)

lemma shape_smooth_open_close: "shape (smooth_open_close M r) = shape M"
  by (simp add: smooth_open_close_bool Let_def shape_erode_bool shape_dilate_bool)

subsection \<open>The structuring element\<close>

lemma filter_upt_prefix:
  assumes down: "\<And>i j. a \<le> i \<Longrightarrow> i \<le> j \<Longrightarrow> P j \<Longrightarrow> P i"
  shows "filter P [a..<b] = [a..<a + length (filter P [a..<b])]"
proof (induction b)
  case 0
  then show ?case by simp
next
  case (Suc b)
  show ?case
  proof (cases "a \<le> b")
    case False
    then show ?thesis by simp
  next
    case ab: True
    show ?thesis
    proof (cases "P b")
      case True
      have "filter P [a..<b] = [a..<b]"
        using down [OF _ _ True] by (simp add: filter_id_conv)
      then show ?thesis using ab True by simp
    next
      case False
      then show ?thesis using ab Suc.IH by simp
    qed
  qed
qed

lemma round_sqrt_le_iff:
  "d \<le> round_sqrt n \<longleftrightarrow> d = 0 \<or> (2 * d - 1)\<^sup>2 \<le> 4 * n"
proof (cases d)
  case 0
  then show ?thesis by simp
next
  case (Suc e)
  let ?P = "\<lambda>d. (2 * d - 1)\<^sup>2 \<le> 4 * n"
  have down: "\<And>i j. 1 \<le> i \<Longrightarrow> i \<le> j \<Longrightarrow> ?P j \<Longrightarrow> ?P i"
  proof -
    fix i j :: nat assume "1 \<le> i" "i \<le> j" "?P j"
    have "2 * i - 1 \<le> 2 * j - 1" using \<open>i \<le> j\<close> by simp
    then have "(2 * i - 1)\<^sup>2 \<le> (2 * j - 1)\<^sup>2" by (rule power_mono) simp
    with \<open>?P j\<close> show "?P i" by (rule order_trans [rotated])
  qed
  have pre: "filter ?P [1..<n + 1] = [1..<1 + round_sqrt n]"
    unfolding round_sqrt_def by (rule filter_upt_prefix) (rule down)
  have bound: "d \<le> n" if "?P d"
  proof -
    have "(2 * d - 1)\<^sup>2 = 4 * e * e + 4 * e + 1" using Suc by (simp add: power2_eq_square)
    with that have "4 * e * e + 4 * e + 1 \<le> 4 * n" by simp
    then have "e < n" by (cases "e = 0") (auto intro: Suc_lessI)
    then show ?thesis using Suc by simp
  qed
  have "d \<in> set (filter ?P [1..<n + 1]) \<longleftrightarrow> d \<in> set [1..<1 + round_sqrt n]"
    by (simp only: pre)
  then have "(d \<le> n \<and> ?P d) \<longleftrightarrow> d \<le> round_sqrt n" using Suc by auto
  with bound Suc show ?thesis by auto
qed

lemma round_sqrt_le: "round_sqrt n \<le> n"
  unfolding round_sqrt_def by (metis add_diff_cancel_right' diff_zero length_filter_le length_upt)

lemma kernel_offsets_mem:
  "(dy, dx) \<in> set (kernel_offsets se) \<longleftrightarrow>
     (\<exists>i < length se. \<exists>j < length (se ! i). se ! i ! j \<noteq> 0 \<and>
        dy = int i - int (length se div 2) \<and> dx = int j - int (length (se ! i) div 2))"
  by (auto simp: kernel_offsets_def)

lemma length_getStructuringElement_ellipse: "length (getStructuringElement_ellipse k) = k"
  by (simp add: getStructuringElement_ellipse_def Let_def)

lemma length_getStructuringElement_ellipse_row:
  "i < k \<Longrightarrow> length (getStructuringElement_ellipse k ! i) = k"
  by (simp add: getStructuringElement_ellipse_def Let_def)

lemma getStructuringElement_ellipse_entry:
  assumes "i < k" "j < k"
  shows "getStructuringElement_ellipse k ! i ! j \<noteq> 0 \<longleftrightarrow>
     (let r = int (k div 2);
          dx = int (round_sqrt (nat (r * r - (int i - r) * (int i - r))))
      in max (r - dx) 0 \<le> int j \<and> int j < min (r + dx + 1) (int k))"
  using assms by (simp add: getStructuringElement_ellipse_def Let_def)

lemma length_disk_kernel: "length (disk_kernel r) = 2 * r + 1"
  by (simp add: disk_kernel_def Let_def length_getStructuringElement_ellipse)

lemma length_disk_kernel_row: "i < 2 * r + 1 \<Longrightarrow> length (disk_kernel r ! i) = 2 * r + 1"
  by (simp add: disk_kernel_def Let_def length_getStructuringElement_ellipse_row)

lemma disk_kernel_entry:
  assumes "i < 2 * r + 1" "j < 2 * r + 1"
  shows "disk_kernel r ! i ! j \<noteq> 0 \<longleftrightarrow>
     \<bar>int j - int r\<bar> \<le> int (round_sqrt (nat (int r * int r - (int i - int r) * (int i - int r))))"
proof -
  have h: "(2 * r + 1) div 2 = r" by simp
  have "disk_kernel r ! i ! j \<noteq> 0 \<longleftrightarrow>
     (let r' = int r;
          dx = int (round_sqrt (nat (r' * r' - (int i - r') * (int i - r'))))
      in max (r' - dx) 0 \<le> int j \<and> int j < min (r' + dx + 1) (int (2 * r + 1)))"
    unfolding disk_kernel_def Let_def
    using getStructuringElement_ellipse_entry [OF assms] by (simp only: h Let_def)
  also have "\<dots> \<longleftrightarrow>
     \<bar>int j - int r\<bar> \<le> int (round_sqrt (nat (int r * int r - (int i - int r) * (int i - int r))))"
    using assms(2) unfolding Let_def by linarith
  finally show ?thesis .
qed

lemma disk_kernel_offsets_iff:
  "(dy, dx) \<in> set (kernel_offsets (disk_kernel r)) \<longleftrightarrow>
     \<bar>dy\<bar> \<le> int r \<and> \<bar>dx\<bar> \<le> int r \<and>
     \<bar>dx\<bar> \<le> int (round_sqrt (nat (int r * int r - dy * dy)))"
  (is "?L \<longleftrightarrow> ?R")
proof
  assume ?L
  then obtain i j where ij: "i < 2 * r + 1" "j < 2 * r + 1" "disk_kernel r ! i ! j \<noteq> 0"
      "dy = int i - int r" "dx = int j - int r"
    by (auto simp: kernel_offsets_mem length_disk_kernel length_disk_kernel_row)
  from disk_kernel_entry [OF ij(1,2)] ij show ?R by auto
next
  assume R: ?R
  define i where "i = nat (dy + int r)"
  define j where "j = nat (dx + int r)"
  have ij: "i < 2 * r + 1" "j < 2 * r + 1" "dy = int i - int r" "dx = int j - int r"
    using R by (auto simp: i_def j_def)
  have "disk_kernel r ! i ! j \<noteq> 0"
    using disk_kernel_entry [OF ij(1,2)] R ij(3,4) by simp
  then show ?L
    unfolding kernel_offsets_mem length_disk_kernel
    using ij by (intro exI [of _ i] exI [of _ j] conjI) (simp_all add: length_disk_kernel_row)
qed

text \<open>
  The kernel as a region: \<open>(dy, dx)\<close> belongs to it when \<open>(\<bar>dx\<bar> - 1/2)\<^sup>2 + dy\<^sup>2 \<le> r\<^sup>2\<close>
  (or \<open>dx = 0\<close>) within \<open>\<bar>dy\<bar> \<le> r\<close>: a disk of radius \<open>r\<close>, widened by half a pixel.
\<close>

lemma disk_kernel_region:
  "(dy, dx) \<in> set (kernel_offsets (disk_kernel r)) \<longleftrightarrow>
     \<bar>dy\<bar> \<le> int r \<and> (dx = 0 \<or> (2 * \<bar>dx\<bar> - 1)\<^sup>2 + 4 * dy\<^sup>2 \<le> 4 * (int r)\<^sup>2)"
  (is "?L \<longleftrightarrow> ?R")
proof (cases "\<bar>dy\<bar> \<le> int r")
  case False
  then show ?thesis by (simp add: disk_kernel_offsets_iff)
next
  case dyr: True
  define n where "n = nat (int r * int r - dy * dy)"
  have "dy * dy \<le> int r * int r"
    using dyr by (metis abs_mult_self_eq abs_ge_zero mult_mono of_nat_0_le_iff)
  then have n: "int n = (int r)\<^sup>2 - dy\<^sup>2" by (simp add: n_def power2_eq_square)
  define d where "d = nat \<bar>dx\<bar>"
  have d: "int d = \<bar>dx\<bar>" by (simp add: d_def)
  have le: "\<bar>dx\<bar> \<le> int (round_sqrt n) \<longleftrightarrow> d = 0 \<or> (2 * d - 1)\<^sup>2 \<le> 4 * n"
    using round_sqrt_le_iff [of d n] d by linarith
  have sq: "(2 * d - 1)\<^sup>2 \<le> 4 * n \<longleftrightarrow> (2 * \<bar>dx\<bar> - 1)\<^sup>2 + 4 * dy\<^sup>2 \<le> 4 * (int r)\<^sup>2" if "d \<noteq> 0"
  proof -
    have "int (2 * d - 1) = 2 * \<bar>dx\<bar> - 1" using that d by linarith
    then have "int ((2 * d - 1)\<^sup>2) = (2 * \<bar>dx\<bar> - 1)\<^sup>2" by simp
    moreover have "int (4 * n) = 4 * (int r)\<^sup>2 - 4 * dy\<^sup>2" using n by simp
    ultimately show ?thesis by linarith
  qed
  have small: "\<bar>dx\<bar> \<le> int r" if "\<bar>dx\<bar> \<le> int (round_sqrt n)"
  proof -
    have "int (round_sqrt n) \<le> int r"
    proof (rule ccontr)
      assume "\<not> int (round_sqrt n) \<le> int r"
      then have "r + 1 \<le> round_sqrt n" by simp
      then have "(2 * (r + 1) - 1)\<^sup>2 \<le> 4 * n" using round_sqrt_le_iff [of "r + 1" n] by simp
      then have "int ((2 * r + 1)\<^sup>2) \<le> int (4 * n)" by (simp only: of_nat_le_iff) simp
      then have "(2 * int r + 1)\<^sup>2 \<le> 4 * (int r)\<^sup>2 - 4 * dy\<^sup>2"
        using n by (simp add: add.commute)
      then have "1 + (int r * 4 + dy * dy * 4) \<le> 0"
        by (simp add: power2_eq_square algebra_simps)
      moreover have "0 \<le> dy * dy" by simp
      ultimately show False by linarith
    qed
    with that show ?thesis by simp
  qed
  have "?L \<longleftrightarrow> \<bar>dx\<bar> \<le> int (round_sqrt n)"
    using dyr small by (auto simp: disk_kernel_offsets_iff n_def)
  also have "\<dots> \<longleftrightarrow> d = 0 \<or> (2 * d - 1)\<^sup>2 \<le> 4 * n" by (rule le)
  also have "\<dots> \<longleftrightarrow> dx = 0 \<or> (2 * \<bar>dx\<bar> - 1)\<^sup>2 + 4 * dy\<^sup>2 \<le> 4 * (int r)\<^sup>2"
  proof (cases "d = 0")
    case True
    then have "dx = 0" using d by simp
    with True show ?thesis by simp
  next
    case False
    then have "dx \<noteq> 0" using d by auto
    with False sq show ?thesis by simp
  qed
  finally show ?thesis using dyr by simp
qed

lemma disk_kernel_origin: "(0, 0) \<in> set (kernel_offsets (disk_kernel r))"
  by (simp add: disk_kernel_region)

lemma disk_kernel_box:
  "(dy, dx) \<in> set (kernel_offsets (disk_kernel r)) \<Longrightarrow> \<bar>dy\<bar> \<le> int r \<and> \<bar>dx\<bar> \<le> int r"
  by (simp add: disk_kernel_offsets_iff)

lemma disk_kernel_sym:
  "(dy, dx) \<in> set (kernel_offsets (disk_kernel r)) \<Longrightarrow>
   (- dy, dx) \<in> set (kernel_offsets (disk_kernel r)) \<and>
   (dy, - dx) \<in> set (kernel_offsets (disk_kernel r))"
  by (simp add: disk_kernel_region)

lemma disk_kernel_axes:
  "(int r, 0) \<in> set (kernel_offsets (disk_kernel r)) \<and>
   (- int r, 0) \<in> set (kernel_offsets (disk_kernel r)) \<and>
   (0, int r) \<in> set (kernel_offsets (disk_kernel r)) \<and>
   (0, - int r) \<in> set (kernel_offsets (disk_kernel r))"
proof -
  have "(2 * int r - 1)\<^sup>2 \<le> 4 * (int r)\<^sup>2" if "r \<noteq> 0"
  proof -
    have "1 \<le> int r" using that by simp
    then show ?thesis by (simp add: power2_eq_square algebra_simps)
  qed
  then show ?thesis by (auto simp: disk_kernel_region)
qed

subsection \<open>Cleaning\<close>

lemma in_bounds_erode_bool: "in_bounds (erode_bool K M) y x = in_bounds M y x"
  by (rule in_bounds_shape) (rule shape_erode_bool)

lemma in_bounds_dilate_bool: "in_bounds (dilate_bool K M) y x = in_bounds M y x"
  by (rule in_bounds_shape) (rule shape_dilate_bool)

lemma in_bounds_smooth_open_close: "in_bounds (smooth_open_close M r) y x = in_bounds M y x"
  by (rule in_bounds_shape) (rule shape_smooth_open_close)

text \<open>Erosion only removes pixels and dilation only adds pixels when the kernel has its origin.\<close>

lemma erode_bool_sub:
  assumes "(0, 0) \<in> set K" "in_bounds M y x" "px (erode_bool K M) y x"
  shows "px M y x"
  using assms by (auto simp: px_erode_bool)

lemma dilate_bool_sup:
  assumes "(0, 0) \<in> set K" "in_bounds M y x" "px M y x"
  shows "px (dilate_bool K M) y x"
  unfolding px_dilate_bool [OF assms(2)]
  by (rule bexI [OF _ assms(1)]) (simp add: assms)

lemma erode_bool_empty:
  assumes "(0, 0) \<in> set K" "\<not> any_px M"
  shows "erode_bool K M = M"
proof (rule image_eqI)
  show "shape (erode_bool K M) = shape M" by (rule shape_erode_bool)
  fix y x assume "in_bounds (erode_bool K M) y x"
  then have b: "in_bounds M y x" by (simp add: in_bounds_erode_bool)
  then have "\<not> px M y x" using assms(2) by (auto simp: any_px_iff)
  moreover have "\<not> px (erode_bool K M) y x"
    using erode_bool_sub [OF assms(1) b] calculation by blast
  ultimately show "px (erode_bool K M) y x = px M y x" by simp
qed

lemma dilate_bool_empty:
  assumes "\<not> any_px M"
  shows "dilate_bool K M = M"
proof (rule image_eqI)
  show "shape (dilate_bool K M) = shape M" by (rule shape_dilate_bool)
  fix y x assume "in_bounds (dilate_bool K M) y x"
  then have b: "in_bounds M y x" by (simp add: in_bounds_dilate_bool)
  have "\<not> px (dilate_bool K M) y x" using assms b by (auto simp: px_dilate_bool any_px_iff)
  moreover have "\<not> px M y x" using assms b by (auto simp: any_px_iff)
  ultimately show "px (dilate_bool K M) y x = px M y x" by simp
qed

lemma erode_bool_full:
  assumes "all_px M"
  shows "erode_bool K M = M"
proof (rule image_eqI)
  show "shape (erode_bool K M) = shape M" by (rule shape_erode_bool)
  fix y x assume "in_bounds (erode_bool K M) y x"
  then have b: "in_bounds M y x" by (simp add: in_bounds_erode_bool)
  have "px (erode_bool K M) y x" using assms b by (auto simp: px_erode_bool all_px_iff)
  moreover have "px M y x" using assms b by (auto simp: all_px_iff)
  ultimately show "px (erode_bool K M) y x = px M y x" by simp
qed

lemma dilate_bool_full:
  assumes "(0, 0) \<in> set K" "all_px M"
  shows "dilate_bool K M = M"
proof (rule image_eqI)
  show "shape (dilate_bool K M) = shape M" by (rule shape_dilate_bool)
  fix y x assume "in_bounds (dilate_bool K M) y x"
  then have b: "in_bounds M y x" by (simp add: in_bounds_dilate_bool)
  have "px M y x" using assms(2) b by (auto simp: all_px_iff)
  moreover from this have "px (dilate_bool K M) y x" by (rule dilate_bool_sup [OF assms(1) b])
  ultimately show "px (dilate_bool K M) y x = px M y x" by simp
qed

lemma smooth_open_close_empty: "\<not> any_px M \<Longrightarrow> smooth_open_close M r = M"
  by (simp add: smooth_open_close_bool Let_def erode_bool_empty dilate_bool_empty
      disk_kernel_origin)

lemma smooth_open_close_full: "all_px M \<Longrightarrow> smooth_open_close M r = M"
  by (simp add: smooth_open_close_bool Let_def erode_bool_full dilate_bool_full
      disk_kernel_origin)

text \<open>When the erosion leaves nothing, the cleaned mask is empty.\<close>

lemma smooth_open_close_eroded_away:
  assumes "\<not> any_px (erode_bool (kernel_offsets (disk_kernel r)) M)"
  shows "\<not> any_px (smooth_open_close M r)"
proof -
  let ?K = "kernel_offsets (disk_kernel r)"
  let ?E = "erode_bool ?K M"
  have "smooth_open_close M r = erode_bool ?K (dilate_bool ?K (dilate_bool ?K ?E))"
    by (simp add: smooth_open_close_bool Let_def)
  also have "\<dots> = ?E"
    using assms by (simp add: dilate_bool_empty erode_bool_empty disk_kernel_origin)
  finally show ?thesis using assms by simp
qed





subsection \<open>The profiles\<close>

lemma ln_100_pos: "0 < ln (100 :: real)"
  by simp

lemma cube_mono: "0 \<le> (a :: real) \<Longrightarrow> a \<le> b \<Longrightarrow> a ^ 3 \<le> b ^ 3"
  by (rule power_mono)

lemma cube_unit: "0 \<le> (t :: real) \<Longrightarrow> t \<le> 1 \<Longrightarrow> 0 \<le> t ^ 3 \<and> t ^ 3 \<le> 1"
  by (simp add: power_le_one)

lemma g_linear_antimono: "t1 \<le> t2 \<Longrightarrow> g_linear t2 \<le> g_linear t1"
  by (simp add: g_linear_def)

lemma g_exp_antimono: "t1 \<le> t2 \<Longrightarrow> g_exp t2 \<le> g_exp t1"
  by (simp add: g_exp_def Let_def mult_left_mono)

lemma g_cos_antimono: "0 \<le> t1 \<Longrightarrow> t1 \<le> t2 \<Longrightarrow> t2 \<le> 1 \<Longrightarrow> g_cos t2 \<le> g_cos t1"
proof -
  assume a: "0 \<le> t1" "t1 \<le> t2" "t2 \<le> 1"
  have "cos (pi * t2) \<le> cos (pi * t1)"
  proof (rule cos_monotone_0_pi_le)
    show "0 \<le> pi * t1" using a by simp
    show "pi * t1 \<le> pi * t2" using a by (simp add: mult_left_mono)
    show "pi * t2 \<le> pi" using a by (simp add: mult_left_le)
  qed
  then show ?thesis by (simp add: g_cos_def)
qed

lemma g_sigmoid_antimono: "t1 \<le> t2 \<Longrightarrow> g_sigmoid t2 \<le> g_sigmoid t1"
proof -
  assume "t1 \<le> t2"
  then have "exp (12 * (t1 - 0.5)) \<le> exp (12 * (t2 - 0.5))" by simp
  moreover have "0 < 1 + exp (12 * (t1 - 0.5))" by (simp add: add_pos_pos)
  ultimately have "1 / (1 + exp (12 * (t2 - 0.5))) \<le> 1 / (1 + exp (12 * (t1 - 0.5)))"
    by (intro divide_left_mono) (simp_all add: add_pos_pos)
  then show ?thesis by (simp add: g_sigmoid_def Let_def)
qed

lemma g_ease_out_power_antimono:
  "0 \<le> t1 \<Longrightarrow> t1 \<le> t2 \<Longrightarrow> g_ease_out_power t2 \<le> g_ease_out_power t1"
  using cube_mono [of t1 t2] by (simp add: g_ease_out_power_def)

lemma g_ease_out_exp_antimono:
  "0 \<le> t1 \<Longrightarrow> t1 \<le> t2 \<Longrightarrow> g_ease_out_exp t2 \<le> g_ease_out_exp t1"
  using cube_mono [of t1 t2] by (simp add: g_ease_out_exp_def Let_def mult_left_mono)

lemma profile_antimono:
  assumes "profile_of m = Some g" "0 \<le> t1" "t1 \<le> t2" "t2 \<le> 1"
  shows "g t2 \<le> g t1"
  using assms
  by (cases m)
    (auto intro: g_linear_antimono g_exp_antimono g_cos_antimono g_sigmoid_antimono
      g_ease_out_power_antimono g_ease_out_exp_antimono)

lemma g_linear_unit: "0 \<le> t \<Longrightarrow> t \<le> 1 \<Longrightarrow> 0 \<le> g_linear t \<and> g_linear t \<le> 1"
  by (simp add: g_linear_def)

lemma g_exp_unit: "0 \<le> t \<Longrightarrow> 0 \<le> g_exp t \<and> g_exp t \<le> 1"
  by (simp add: g_exp_def Let_def)

lemma g_cos_unit: "0 \<le> g_cos t \<and> g_cos t \<le> 1"
proof -
  have "- 1 \<le> cos (pi * t)" "cos (pi * t) \<le> 1" by simp_all
  then have "0 \<le> 1 + cos (pi * t)" "1 + cos (pi * t) \<le> 2" by linarith+
  then show ?thesis by (simp add: g_cos_def)
qed

lemma g_sigmoid_unit: "0 \<le> g_sigmoid t \<and> g_sigmoid t \<le> 1"
proof -
  have "0 < exp (12 * (t - 0.5))" by simp
  then have "0 < 1 + exp (12 * (t - 0.5))" "1 \<le> 1 + exp (12 * (t - 0.5))" by linarith+
  then have "0 \<le> 1 / (1 + exp (12 * (t - 0.5)))" "1 / (1 + exp (12 * (t - 0.5))) \<le> 1"
    by (simp_all only: divide_le_eq_1_pos zero_le_divide_1_iff less_imp_le)
  then show ?thesis by (simp only: g_sigmoid_def Let_def)
qed

lemma g_ease_out_power_unit:
  "0 \<le> t \<Longrightarrow> t \<le> 1 \<Longrightarrow> 0 \<le> g_ease_out_power t \<and> g_ease_out_power t \<le> 1"
  using cube_unit [of t] by (simp add: g_ease_out_power_def)

lemma g_ease_out_exp_unit: "0 \<le> t \<Longrightarrow> 0 \<le> g_ease_out_exp t \<and> g_ease_out_exp t \<le> 1"
  by (simp add: g_ease_out_exp_def Let_def)

lemma profile_unit:
  assumes "profile_of m = Some g" "0 \<le> t" "t \<le> 1"
  shows "0 \<le> g t \<and> g t \<le> 1"
  using assms
  by (cases m)
    (auto simp: g_linear_unit g_exp_unit g_cos_unit g_sigmoid_unit g_ease_out_power_unit
      g_ease_out_exp_unit)

lemma clip_unit: "0 \<le> clip v 0 1 \<and> clip v 0 1 \<le> 1"
  by (simp add: clip_def)


lemma g_exp_1: "g_exp 1 = 1 / 100"
  by (simp add: g_exp_def Let_def exp_minus)

subsection \<open>The engine\<close>

lemma apply_feathering_none:
  "apply_feathering raw (value_of NONE) w = Inr (astype_float32 (smooth_open_close raw 4))"
  by (simp add: apply_feathering_def Let_def)

lemma apply_feathering_profile:
  "profile_of m = Some g \<Longrightarrow>
   apply_feathering raw (value_of m) w = Inr (feather (smooth_open_close raw 4) g w)"
  by (cases m)
    (auto simp: apply_feathering_def Let_def feather_linear_def feather_exp_def feather_cos_def
      feather_sigmoid_def feather_ease_out_power_def feather_ease_out_exp_def)

lemma profile_of_cases: "m = NONE \<or> (\<exists>g. profile_of m = Some g)"
  by (cases m) auto

lemma zeros_like_shape: "shape a = shape b \<Longrightarrow> zeros_like a = zeros_like b"
  by (rule image_eqI)
    (simp_all add: shape_zeros_like zeros_like_px in_bounds_shape [OF shape_zeros_like]
      in_bounds_shape [of a b])

lemma ones_like_shape: "shape a = shape b \<Longrightarrow> ones_like a = ones_like b"
  by (rule image_eqI)
    (simp_all add: shape_ones_like ones_like_px in_bounds_shape [OF shape_ones_like]
      in_bounds_shape [of a b])

lemma feather_empty: "\<not> any_px M \<Longrightarrow> feather M g w = zeros_like M"
  by (simp add: feather_def Let_def)

lemma feather_full: "any_px M \<Longrightarrow> all_px M \<Longrightarrow> feather M g w = ones_like M"
  by (simp add: feather_def Let_def)

lemma astype_float32_empty: "\<not> any_px M \<Longrightarrow> astype_float32 M = zeros_like M"
  by (rule image_eqI)
    (auto simp: shape_astype_float32 shape_zeros_like astype_float32_px zeros_like_px any_px_iff
      in_bounds_shape [OF shape_astype_float32])

lemma astype_float32_full: "all_px M \<Longrightarrow> astype_float32 M = ones_like M"
  by (rule image_eqI)
    (auto simp: shape_astype_float32 shape_ones_like astype_float32_px ones_like_px all_px_iff
      in_bounds_shape [OF shape_astype_float32])

lemma is_image_any: "is_image M \<Longrightarrow> all_px M \<Longrightarrow> any_px M"
proof -
  assume i: "is_image M" and a: "all_px M"
  have "in_bounds M 0 0" using i by (cases M) (auto simp: is_image_def in_bounds_def)
  with a show ?thesis unfolding any_px_iff all_px_iff by blast
qed

lemma is_image_shape: "shape a = shape b \<Longrightarrow> is_image a \<Longrightarrow> is_image b"
proof -
  assume s: "shape a = shape b" and i: "is_image a"
  have "map length a = map length b" using s by (simp add: shape_def)
  moreover have "is_image c \<longleftrightarrow> map length c \<noteq> [] \<and> hd (map length c) \<noteq> 0 \<and>
      list_all (\<lambda>n. n = hd (map length c)) (map length c)" for c :: "'c image"
    by (cases c) (auto simp: is_image_def list_all_iff)
  ultimately show ?thesis using i by (metis (no_types))
qed

text \<open>Every pixel of the matte of \<open>_feather\<close>, in all three branches.\<close>

lemma px_feather_total:
  assumes "in_bounds M y x"
  shows "px (feather M g w) y x =
    (if px M y x then 1
     else if any_px M \<and> px (distance_transform_edt (ew Not M)) y x < w
          then g (clip (px (distance_transform_edt (ew Not M)) y x / w) 0 1)
          else 0)"
proof (cases "any_px M")
  case False
  then have "\<not> px M y x" using assms by (auto simp: any_px_iff)
  with False assms show ?thesis by (simp add: feather_empty zeros_like_px)
next
  case a: True
  show ?thesis
  proof (cases "all_px M")
    case True
    then have "px M y x" using assms by (auto simp: all_px_iff)
    with True a assms show ?thesis by (simp add: feather_full ones_like_px)
  next
    case False
    show ?thesis using px_feather [OF a False assms] a by (simp add: Let_def)
  qed
qed

text \<open>A non-positive width leaves no band: the matte is the mask itself, cast.\<close>

lemma feather_nonpositive_width:
  assumes "w \<le> 0"
  shows "feather M g w = astype_float32 M"
proof (rule image_eqI)
  show "shape (feather M g w) = shape (astype_float32 M)"
    by (simp add: shape_feather shape_astype_float32)
  fix y x assume "in_bounds (feather M g w) y x"
  then have b: "in_bounds M y x" by (simp add: in_bounds_shape [OF shape_feather])
  have "\<not> px (distance_transform_edt (ew Not M)) y x < w" if "any_px M"
    using edt_nonneg [OF that b] assms by linarith
  then show "px (feather M g w) y x = px (astype_float32 M) y x"
    using b by (auto simp: px_feather_total astype_float32_px)
qed

lemma px_values:
  assumes "\<And>y x. in_bounds a y x \<Longrightarrow> P (px a y x)"
  shows "\<forall>row \<in> set a. \<forall>v \<in> set row. P v"
proof (intro ballI)
  fix row v assume "row \<in> set a" "v \<in> set row"
  then obtain i j where "i < length a" "a ! i = row" "j < length row" "row ! j = v"
    by (auto simp: in_set_conv_nth)
  then have "in_bounds a (int i) (int j)" "px a (int i) (int j) = v"
    by (simp_all add: in_bounds_def px_def)
  with assms show "P v" by metis
qed

subsection \<open>The test masks\<close>

lemma shape_single_pixel: "shape (single_pixel h w cy cx) = replicate h w"
  by (auto simp: shape_def single_pixel_def intro: nth_equalityI)

lemma in_bounds_single_pixel:
  "in_bounds (single_pixel h w cy cx) y x \<longleftrightarrow> 0 \<le> y \<and> y < int h \<and> 0 \<le> x \<and> x < int w"
  by (auto simp: in_bounds_def single_pixel_def)

lemma px_single_pixel:
  "in_bounds (single_pixel h w cy cx) y x \<Longrightarrow>
   px (single_pixel h w cy cx) y x \<longleftrightarrow> y = int cy \<and> x = int cx"
  by (auto simp: in_bounds_def px_def single_pixel_def)

lemma interior_single_pixel:
  "cy < h \<Longrightarrow> cx < w \<Longrightarrow> interior (single_pixel h w cy cx) = {(int cy, int cx)}"
proof -
  assume c: "cy < h" "cx < w"
  have "in_bounds (single_pixel h w cy cx) (int cy) (int cx)"
    using c by (simp add: in_bounds_single_pixel)
  moreover from this have "px (single_pixel h w cy cx) (int cy) (int cx)"
    by (simp add: px_single_pixel)
  ultimately show ?thesis by (auto simp: interior_def px_single_pixel)
qed

lemma is_image_single_pixel: "0 < h \<Longrightarrow> 0 < w \<Longrightarrow> is_image (single_pixel h w cy cx)"
  by (auto simp: is_image_def single_pixel_def list_all_iff hd_map upt_conv_Cons)

lemma kernel_4_offsets:
  "(0, 1) \<in> set (kernel_offsets (disk_kernel 4)) \<and> (0, - 1) \<in> set (kernel_offsets (disk_kernel 4))"
  by (simp add: disk_kernel_region)

lemma single_pixel_eroded:
  assumes "cy < h" "cx < w" "2 \<le> w"
  shows "\<not> any_px (erode_bool (kernel_offsets (disk_kernel 4)) (single_pixel h w cy cx))"
proof
  let ?K = "kernel_offsets (disk_kernel 4)"
  let ?M = "single_pixel h w cy cx"
  assume "any_px (erode_bool ?K ?M)"
  then obtain y x where b: "in_bounds ?M y x" and e: "px (erode_bool ?K ?M) y x"
    by (auto simp: any_px_iff in_bounds_erode_bool)
  have "px ?M y x" using disk_kernel_origin b e by (rule erode_bool_sub)
  then have yx: "y = int cy" "x = int cx" using b by (simp_all add: px_single_pixel)
  have all: "\<forall>(dy, dx) \<in> set ?K. in_bounds ?M (y + dy) (x + dx) \<longrightarrow> px ?M (y + dy) (x + dx)"
    using e by (simp add: px_erode_bool [OF b])
  show False
  proof (cases "cx + 1 < w")
    case True
    then have "in_bounds ?M (y + 0) (x + 1)" using assms yx by (simp add: in_bounds_single_pixel)
    moreover have "(0, 1) \<in> set ?K" using kernel_4_offsets by simp
    ultimately have "px ?M (y + 0) (x + 1)" using all by blast
    then show False
      using \<open>in_bounds ?M (y + 0) (x + 1)\<close> yx by (simp add: px_single_pixel)
  next
    case False
    then have "1 \<le> cx" using assms by linarith
    then have ib: "in_bounds ?M (y + 0) (x + - 1)"
      using assms yx by (simp add: in_bounds_single_pixel)
    moreover have "(0, - 1) \<in> set ?K" using kernel_4_offsets by simp
    ultimately have "px ?M (y + 0) (x + - 1)" using all by blast
    then show False using ib yx by (simp add: px_single_pixel)
  qed
qed

lemma kernel_4:
  "kernel_offsets (disk_kernel 4) =
   [(- 4, 0),
    (- 3, - 3), (- 3, - 2), (- 3, - 1), (- 3, 0), (- 3, 1), (- 3, 2), (- 3, 3),
    (- 2, - 3), (- 2, - 2), (- 2, - 1), (- 2, 0), (- 2, 1), (- 2, 2), (- 2, 3),
    (- 1, - 4), (- 1, - 3), (- 1, - 2), (- 1, - 1), (- 1, 0), (- 1, 1), (- 1, 2), (- 1, 3), (- 1, 4),
    (0, - 4), (0, - 3), (0, - 2), (0, - 1), (0, 0), (0, 1), (0, 2), (0, 3), (0, 4),
    (1, - 4), (1, - 3), (1, - 2), (1, - 1), (1, 0), (1, 1), (1, 2), (1, 3), (1, 4),
    (2, - 3), (2, - 2), (2, - 1), (2, 0), (2, 1), (2, 2), (2, 3),
    (3, - 3), (3, - 2), (3, - 1), (3, 0), (3, 1), (3, 2), (3, 3),
    (4, 0)]"
  by code_simp

lemma smooth_open_close_row15: "smooth_open_close row15 4 = row15"
  unfolding smooth_open_close_bool Let_def kernel_4 row15_def
  by code_simp

lemma is_image_row15: "is_image row15"
  by (simp add: is_image_def row15_def)

lemma in_bounds_row15: "in_bounds row15 y x \<longleftrightarrow> y = 0 \<and> 0 \<le> x \<and> x < 15"
  by (auto simp: in_bounds_def row15_def)

lemma px_row15: "0 \<le> x \<Longrightarrow> x < 15 \<Longrightarrow> px row15 0 x \<longleftrightarrow> x < 5"
proof -
  assume "0 \<le> x" "x < 15"
  then have "x = 0 \<or> x = 1 \<or> x = 2 \<or> x = 3 \<or> x = 4 \<or> x = 5 \<or> x = 6 \<or> x = 7 \<or> x = 8 \<or>
      x = 9 \<or> x = 10 \<or> x = 11 \<or> x = 12 \<or> x = 13 \<or> x = 14"
    by arith
  then show ?thesis by (elim disjE) (simp_all add: px_def row15_def)
qed

lemma interior_row15: "interior row15 = {(0, 0), (0, 1), (0, 2), (0, 3), (0, 4)}"
proof -
  have "interior row15 = {(y, x). y = 0 \<and> 0 \<le> x \<and> x < 5}"
    by (auto simp: interior_def in_bounds_row15 px_row15)
  also have "\<dots> = {(0, 0), (0, 1), (0, 2), (0, 3), (0, 4)}" by auto
  finally show ?thesis .
qed

lemma any_px_row15: "any_px row15" and not_all_px_row15: "\<not> all_px row15"
  by (simp_all add: any_px_def all_px_def row15_def)

lemma nearest_row15_14: "nearest_interior_distance row15 0 14 = 10"
proof -
  have s: "sqrt 196 = 14" "sqrt 169 = 13" "sqrt 144 = 12" "sqrt 121 = 11" "sqrt 100 = 10"
    by (rule real_sqrt_unique; simp)+
  show ?thesis
    by (simp add: nearest_interior_distance_def interior_row15 euclid_def s)
qed

lemma nearest_row15_7: "nearest_interior_distance row15 0 7 = 3"
proof -
  have s: "sqrt 49 = 7" "sqrt 36 = 6" "sqrt 25 = 5" "sqrt 16 = 4" "sqrt 9 = 3"
    by (rule real_sqrt_unique; simp)+
  show ?thesis
    by (simp add: nearest_interior_distance_def interior_row15 euclid_def s)
qed

section \<open>Facts about the roundings\<close>

lemma round_half_even_of_int: "round_half_even (real_of_int k) = k"
  by (simp add: round_half_even_def)


text \<open>A dyadic number with a short enough mantissa is a floating-point number.\<close>

lemma fl_round_dyadic:
  assumes m: "\<bar>m\<bar> < 2 ^ p" and k: "emin - int p + 1 \<le> k"
  shows "fl_round p emin (real_of_int m * 2 powr real_of_int k) = real_of_int m * 2 powr real_of_int k"
proof (cases "m = 0")
  case True
  then show ?thesis by (simp add: fl_round_def)
next
  case False
  let ?v = "real_of_int m * 2 powr real_of_int k"
  have v0: "?v \<noteq> 0" using False by simp
  have av: "\<bar>?v\<bar> = real_of_int \<bar>m\<bar> * 2 powr real_of_int k" by (simp add: abs_mult)
  have "real_of_int \<bar>m\<bar> < 2 ^ p" using m by (metis of_int_less_numeral_power_cancel_iff)
  then have "real_of_int \<bar>m\<bar> < 2 powr real p" by (simp add: powr_realpow)
  then have "\<bar>?v\<bar> < 2 powr real p * 2 powr real_of_int k"
    unfolding av by (intro mult_strict_right_mono) simp_all
  then have lt: "\<bar>?v\<bar> < 2 powr real_of_int (int p + k)" by (simp add: powr_add)
  have "log 2 \<bar>?v\<bar> < real_of_int (int p + k)"
    using lt v0 by (subst log_less_iff) simp_all
  then have e: "\<lfloor>log 2 \<bar>?v\<bar>\<rfloor> \<le> int p + k - 1" by linarith
  define E where "E = max \<lfloor>log 2 \<bar>?v\<bar>\<rfloor> emin"
  have E: "E - int p + 1 \<le> k" using e k by (simp add: E_def)
  define j where "j = nat (k - (E - int p + 1))"
  have j: "int j = k - (E - int p + 1)" using E by (simp add: j_def)
  have "2 powr real_of_int k = 2 powr real_of_int (int j) * 2 powr real_of_int (E - int p + 1)"
    by (simp only: j powr_add [symmetric]) simp
  then have split: "2 powr real_of_int k = 2 ^ j * 2 powr real_of_int (E - int p + 1)"
    by (simp add: powr_realpow)
  have q: "?v / 2 powr real_of_int (E - int p + 1) = real_of_int (m * 2 ^ j)"
    by (simp add: split)
  have "fl_round p emin ?v =
      real_of_int (round_half_even (?v / 2 powr real_of_int (E - int p + 1))) *
        2 powr real_of_int (E - int p + 1)"
    using v0 unfolding fl_round_def E_def Let_def by (simp only: if_False)
  also have "\<dots> = real_of_int (m * 2 ^ j) * 2 powr real_of_int (E - int p + 1)"
    by (simp only: q round_half_even_of_int)
  also have "\<dots> = ?v" by (simp add: split)
  finally show ?thesis .
qed

lemma fl_round_int:
  "\<bar>m\<bar> < 2 ^ p \<Longrightarrow> emin - int p + 1 \<le> 0 \<Longrightarrow> fl_round p emin (real_of_int m) = real_of_int m"
  using fl_round_dyadic [of m p emin 0] by simp

lemma f64_int: "\<bar>m\<bar> < 2 ^ 53 \<Longrightarrow> f64 (real_of_int m) = real_of_int m"
  unfolding f64_def by (rule fl_round_int) simp_all

lemma f32_int: "\<bar>m\<bar> < 2 ^ 24 \<Longrightarrow> f32 (real_of_int m) = real_of_int m"
  unfolding f32_def by (rule fl_round_int) simp_all




lemma f64_0: "f64 0 = 0" and f32_0: "f32 0 = 0"
  by (simp_all add: f64_def f32_def fl_round_def)






lemma f64_10: "f64 10 = 10"
  using f64_int [of 10] by simp

subsection \<open>Feathering with the roundings\<close>

lemma distance_transform_edt_fp_ew:
  "distance_transform_edt_fp a = ew f64 (distance_transform_edt a)"
  by (simp add: distance_transform_edt_fp_def distance_transform_edt_def tabulate_def ew_def
      comp_def)

lemma shape_distance_transform_edt: "shape (distance_transform_edt a) = shape a"
  by (simp add: distance_transform_edt_def shape_tabulate)

lemma px_edt_fp:
  assumes "any_px M" "in_bounds M y x"
  shows "px (distance_transform_edt_fp (ew Not M)) y x = f64 (nearest_interior_distance M y x)"
proof -
  have "in_bounds (distance_transform_edt (ew Not M)) y x"
    using assms(2) in_bounds_shape [of "distance_transform_edt (ew Not M)" M]
    by (simp add: shape_distance_transform_edt shape_ew)
  then show ?thesis
    by (simp add: distance_transform_edt_fp_ew px_ew edt_exact [OF assms])
qed

lemma shape_feather_fp: "shape (feather_fp M g w) = shape M"
  by (simp add: feather_fp_def Let_def shape_zeros_like shape_ones_like shape_assign_masked
      shape_assign_scalar shape_ew shape_ew2 shape_tabulate distance_transform_edt_fp_def)

lemma px_feather_fp:
  assumes "any_px M" "\<not> all_px M" "in_bounds M y x"
  shows "px (feather_fp M g w) y x =
    (let D = px (distance_transform_edt_fp (ew Not M)) y x in
     if px M y x then 1 else if D < w then f32 (g (clip (f64 (D / w)) 0 1)) else 0)"
proof -
  define D_out where "D_out = distance_transform_edt_fp (ew Not M)"
  define t where "t = ew (\<lambda>d. clip (f64 (d / w)) 0 1) D_out"
  define band where "band = ew (\<lambda>d. d < w) D_out"
  define ramp_vals where "ramp_vals = ew g t"
  define stored where "stored = ew f32 ramp_vals"
  define alpha0 where "alpha0 = zeros_like t"
  define alpha1 where "alpha1 = assign_scalar alpha0 M 1"
  define sel where "sel = ew2 (\<and>) (ew Not M) band"
  have sD: "shape D_out = shape M"
    by (simp add: D_out_def distance_transform_edt_fp_def shape_tabulate shape_ew)
  have st: "shape t = shape M" by (simp add: t_def shape_ew sD)
  have sb: "shape band = shape M" by (simp add: band_def shape_ew sD)
  have sr: "shape ramp_vals = shape M" by (simp add: ramp_vals_def shape_ew st)
  have sf: "shape stored = shape M" by (simp add: stored_def shape_ew sr)
  have s0: "shape alpha0 = shape M" by (simp add: alpha0_def shape_zeros_like st)
  have s1: "shape alpha1 = shape M" by (simp add: alpha1_def shape_assign_scalar s0)
  have sn: "shape (ew Not M) = shape M" by (rule shape_ew)
  have ss: "shape sel = shape M" by (simp add: sel_def shape_ew2 sn sb)
  note b = assms(3)
  have bD: "in_bounds D_out y x" using b in_bounds_shape [OF sD] by simp
  have bt: "in_bounds t y x" using b in_bounds_shape [OF st] by simp
  have br: "in_bounds ramp_vals y x" using b in_bounds_shape [OF sr] by simp
  have b0: "in_bounds alpha0 y x" using b in_bounds_shape [OF s0] by simp
  have b1: "in_bounds alpha1 y x" using b in_bounds_shape [OF s1] by simp
  have bn: "in_bounds (ew Not M) y x" using b in_bounds_shape [OF sn] by simp
  have pt: "px t y x = clip (f64 (px D_out y x / w)) 0 1" by (simp add: t_def px_ew bD)
  have pb: "px band y x = (px D_out y x < w)" by (simp add: band_def px_ew bD)
  have pr: "px ramp_vals y x = g (clip (f64 (px D_out y x / w)) 0 1)"
    by (simp add: ramp_vals_def px_ew bt pt)
  have pf: "px stored y x = f32 (g (clip (f64 (px D_out y x / w)) 0 1))"
    by (simp add: stored_def px_ew br pr)
  have p0: "px alpha0 y x = 0" by (simp add: alpha0_def zeros_like_px bt)
  have p1: "px alpha1 y x = (if px M y x then 1 else 0)"
    by (simp add: alpha1_def px_assign_scalar s0 b0 p0)
  have ps: "px sel y x = (\<not> px M y x \<and> px D_out y x < w)"
    by (simp add: sel_def px_ew2 sn sb bn px_ew b pb)
  have "feather_fp M g w = assign_masked alpha1 sel stored"
    using assms(1,2)
    by (simp add: feather_fp_def Let_def D_out_def t_def band_def ramp_vals_def alpha0_def
        alpha1_def sel_def stored_def)
  moreover have "px (assign_masked alpha1 sel stored) y x =
      (if px sel y x then px stored y x else px alpha1 y x)"
    by (rule px_assign_masked) (simp_all add: s1 ss sf b1)
  ultimately show ?thesis
    by (simp add: ps pf p1 D_out_def Let_def)
qed

lemma px_feather_fp_exterior:
  assumes "any_px M" "in_bounds M y x" "\<not> px M y x"
  shows "px (feather_fp M g w) y x =
    (if f64 (nearest_interior_distance M y x) < w
     then f32 (g (clip (f64 (f64 (nearest_interior_distance M y x) / w)) 0 1)) else 0)"
proof -
  have "\<not> all_px M" using assms(2,3) by (auto simp: all_px_iff)
  from px_feather_fp [OF assms(1) this assms(2)] assms(3) show ?thesis
    by (simp add: Let_def px_edt_fp [OF assms(1,2)])
qed

lemma apply_feathering_fp_none:
  "apply_feathering_fp lib raw (value_of NONE) w = Inr (astype_float32 (smooth_open_close raw 4))"
  by (simp add: apply_feathering_fp_def Let_def)

lemma apply_feathering_fp_profile:
  "profile_fp lib m = Some g \<Longrightarrow>
   apply_feathering_fp lib raw (value_of m) w = Inr (feather_fp (smooth_open_close raw 4) g w)"
  by (cases m)
    (auto simp: apply_feathering_fp_def Let_def feather_linear_fp_def feather_exp_fp_def
      feather_cos_fp_def feather_sigmoid_fp_def feather_ease_out_power_fp_def
      feather_ease_out_exp_fp_def)

lemma profile_fp_cases: "m = NONE \<or> (\<exists>g. profile_fp lib m = Some g)"
  by (cases m) auto



subsection \<open>The shape of the structuring element under the cleaning\<close>

lemma blob9_transpose: "transpose blob9 = blob9_transposed"
  unfolding blob9_def blob9_transposed_def by code_simp

lemma blob9_eroded_centre: "px (erode_bool (kernel_offsets (disk_kernel 4)) blob9) 4 4"
  unfolding kernel_4 erode_bool_def blob9_def px_def tabulate_def in_bounds_def
  by code_simp

lemma blob9_transposed_eroded:
  "\<not> any_px (erode_bool (kernel_offsets (disk_kernel 4)) blob9_transposed)"
  unfolding kernel_4 erode_bool_def blob9_transposed_def
  by code_simp

lemma kernel_2:
  "kernel_offsets (disk_kernel 2) =
   [(- 2, 0),
    (- 1, - 2), (- 1, - 1), (- 1, 0), (- 1, 1), (- 1, 2),
    (0, - 2), (0, - 1), (0, 0), (0, 1), (0, 2),
    (1, - 2), (1, - 1), (1, 0), (1, 1), (1, 2),
    (2, 0)]"
  by code_simp

lemma row10_default: "smooth_open_close row10 2 = row10"
  unfolding smooth_open_close_bool Let_def kernel_2 row10_def
  by code_simp

lemma row10_4:
  "smooth_open_close row10 4 =
     [[False, False, False, False, False, False, False, False, False, False]]"
  unfolding smooth_open_close_bool Let_def kernel_4 row10_def
  by code_simp

lemma disk_kernel_neg:
  "(dy, dx) \<in> set (kernel_offsets (disk_kernel r)) \<Longrightarrow>
   (- dy, - dx) \<in> set (kernel_offsets (disk_kernel r))"
  by (simp add: disk_kernel_region)

text \<open>A closing with a point-symmetric kernel keeps every pixel of its argument.\<close>

lemma closing_keeps:
  assumes sym: "\<And>dy dx. (dy, dx) \<in> set K \<Longrightarrow> (- dy, - dx) \<in> set K"
    and b: "in_bounds M y x" and p: "px M y x"
  shows "px (erode_bool K (dilate_bool K M)) y x"
proof -
  have bd: "in_bounds (dilate_bool K M) y x" using b by (simp add: in_bounds_dilate_bool)
  have "px (dilate_bool K M) (y + dy) (x + dx)"
    if k: "(dy, dx) \<in> set K" and i: "in_bounds (dilate_bool K M) (y + dy) (x + dx)" for dy dx
  proof -
    have i': "in_bounds M (y + dy) (x + dx)" using i by (simp add: in_bounds_dilate_bool)
    have "(- dy, - dx) \<in> set K" using k by (rule sym)
    moreover have "in_bounds M (y + dy + - dy) (x + dx + - dx) \<and>
        px M (y + dy + - dy) (x + dx + - dx)"
      using b p by simp
    ultimately show ?thesis unfolding px_dilate_bool [OF i'] by blast
  qed
  then show ?thesis unfolding px_erode_bool [OF bd] by blast
qed

lemma blob9_kept: "px (smooth_open_close blob9 4) 4 4"
proof -
  let ?K = "kernel_offsets (disk_kernel 4)"
  have b: "in_bounds blob9 4 4" by (simp add: in_bounds_def blob9_def)
  have be: "in_bounds (erode_bool ?K blob9) 4 4" using b by (simp add: in_bounds_erode_bool)
  have o: "px (dilate_bool ?K (erode_bool ?K blob9)) 4 4"
    using disk_kernel_origin be blob9_eroded_centre by (rule dilate_bool_sup)
  have bo: "in_bounds (dilate_bool ?K (erode_bool ?K blob9)) 4 4"
    using be by (simp add: in_bounds_dilate_bool)
  have "px (erode_bool ?K (dilate_bool ?K (dilate_bool ?K (erode_bool ?K blob9)))) 4 4"
    using disk_kernel_neg bo o by (rule closing_keeps)
  then show ?thesis by (simp add: smooth_open_close_bool Let_def)
qed

lemma blob9_transposed_erased: "\<not> any_px (smooth_open_close blob9_transposed 4)"
  using blob9_transposed_eroded by (rule smooth_open_close_eroded_away)

subsection \<open>The error of a rounding\<close>

lemma round_half_even_error: "\<bar>real_of_int (round_half_even v) - v\<bar> \<le> 1 / 2"
proof -
  have "real_of_int \<lfloor>v\<rfloor> \<le> v" "v < real_of_int \<lfloor>v\<rfloor> + 1" by linarith+
  then show ?thesis unfolding round_half_even_def Let_def by (auto simp: abs_le_iff)
qed

lemma fl_round_error:
  assumes lo: "2 powr real_of_int e \<le> \<bar>v\<bar>" and hi: "\<bar>v\<bar> < 2 powr real_of_int (e + 1)"
    and em: "emin \<le> e"
  shows "\<bar>fl_round p emin v - v\<bar> \<le> 2 powr real_of_int (e - int p + 1) / 2"
proof -
  have "(0 :: real) < 2 powr real_of_int e" by simp
  then have pos: "0 < \<bar>v\<bar>" using lo by (rule less_le_trans)
  then have nz: "v \<noteq> 0" by simp
  have "\<lfloor>log 2 \<bar>v\<bar>\<rfloor> = e \<longleftrightarrow> 2 powr real_of_int e \<le> \<bar>v\<bar> \<and> \<bar>v\<bar> < 2 powr real_of_int (e + 1)"
    using pos by (intro floor_log_eq_powr_iff) simp_all
  then have fl: "\<lfloor>log 2 \<bar>v\<bar>\<rfloor> = e" using lo hi by simp
  have m: "max e emin = e" using em by simp
  define u :: real where "u = 2 powr real_of_int (e - int p + 1)"
  have up: "0 < u" by (simp add: u_def)
  have "fl_round p emin v = real_of_int (round_half_even (v / u)) * u"
    unfolding fl_round_def Let_def fl m u_def by (simp only: nz if_False)
  then have "fl_round p emin v - v = (real_of_int (round_half_even (v / u)) - v / u) * u"
    using up by (simp add: algebra_simps)
  then have "\<bar>fl_round p emin v - v\<bar> = \<bar>real_of_int (round_half_even (v / u)) - v / u\<bar> * u"
    using up by (simp add: abs_mult)
  also have "\<dots> \<le> 1 / 2 * u"
    using round_half_even_error [of "v / u"] up by (intro mult_right_mono) simp_all
  finally show ?thesis by (simp add: u_def)
qed

lemma two_powr_minus_nat: "(2 :: real) powr (- real n) = 1 / 2 ^ n"
  by (simp only: powr_minus_divide powr_realpow zero_less_numeral)

lemma f64_error_2_8:
  assumes "2 \<le> \<bar>v\<bar>" "\<bar>v\<bar> < 8"
  shows "\<bar>f64 v - v\<bar> \<le> 1 / 2 ^ 51"
proof (cases "\<bar>v\<bar> < 4")
  case True
  have "\<bar>fl_round 53 (- 1022) v - v\<bar> \<le> 2 powr real_of_int (1 - int 53 + 1) / 2"
    using assms(1) True by (intro fl_round_error) simp_all
  moreover have "real_of_int (1 - int 53 + 1) = - real (51 :: nat)" by simp
  ultimately have "\<bar>f64 v - v\<bar> \<le> 1 / 2 ^ 51 / 2"
    by (simp only: f64_def two_powr_minus_nat)
  then show ?thesis by simp
next
  case False
  have "\<bar>fl_round 53 (- 1022) v - v\<bar> \<le> 2 powr real_of_int (2 - int 53 + 1) / 2"
    using assms(2) False by (intro fl_round_error) simp_all
  moreover have "real_of_int (2 - int 53 + 1) = - real (50 :: nat)" by simp
  ultimately have "\<bar>f64 v - v\<bar> \<le> 1 / 2 ^ 50 / 2"
    by (simp only: f64_def two_powr_minus_nat)
  then show ?thesis by simp
qed

lemma ln_100_bounds: "4 < ln (100 :: real)" "ln (100 :: real) < 7"
proof -
  have e3: "exp (1 :: real) \<le> 3" by (rule exp_le)
  have e2: "(2 :: real) \<le> exp 1" using exp_ge_add_one_self [of "1 :: real"] by simp
  have "exp (4 :: real) = exp 1 ^ 4" by (simp add: exp_of_nat_mult [symmetric])
  also have "\<dots> \<le> 3 ^ 4" using e3 by (intro power_mono) simp_all
  finally have "exp (4 :: real) < 100" by simp
  then have "exp (4 :: real) < exp (ln 100)" by simp
  then show "4 < ln (100 :: real)" by (simp only: exp_less_cancel_iff)
  have "(2 :: real) ^ 7 \<le> exp 1 ^ 7" using e2 by (intro power_mono) simp_all
  also have "\<dots> = exp (7 :: real)" by (simp add: exp_of_nat_mult [symmetric])
  finally have "100 < exp (7 :: real)" by simp
  then have "exp (ln 100) < exp (7 :: real)" by simp
  then show "ln (100 :: real) < 7" by (simp only: exp_less_cancel_iff)
qed

lemma exp_near_1: assumes "\<bar>d\<bar> \<le> 1" shows "\<bar>exp d - 1\<bar> \<le> 2 * \<bar>d :: real\<bar>"
proof (cases "0 \<le> d")
  case True
  then have "exp d \<le> 1 + d + d\<^sup>2" using assms by (intro exp_bound) simp_all
  moreover have "d\<^sup>2 \<le> d" using True assms by (simp add: power2_eq_square mult_left_le)
  moreover have "1 \<le> exp d" using True by simp
  ultimately show ?thesis using True by simp
next
  case False
  then have a: "exp d \<le> 1" by simp
  have b: "1 + d \<le> exp d" by (rule exp_ge_add_one_self)
  have "\<bar>exp d - 1\<bar> = 1 - exp d" using a by simp
  moreover have "\<bar>d\<bar> = - d" using False by simp
  ultimately show ?thesis using b False by linarith
qed

text \<open>
  With a library accurate to 0.000001 the float64 exponential profile at 1 is within
  0.001 of 0.01.
\<close>

lemma g_exp_fp_1:
  assumes k: "\<bar>np_log lib 100 - ln 100\<bar> \<le> 1 / 1000000"
    and acc: "\<And>v. \<bar>v + ln 100\<bar> \<le> 1 / 100000 \<Longrightarrow> \<bar>np_exp lib v - exp v\<bar> \<le> 1 / 1000000"
  shows "\<bar>g_exp_fp lib 1 - 1 / 100\<bar> \<le> 1 / 1000"
proof -
  define kk where "kk = np_log lib 100"
  define v where "v = f64 (- kk)"
  have k': "- (1 / 1000000) \<le> kk - ln 100" "kk - ln 100 \<le> 1 / 1000000"
    using k unfolding kk_def by (simp_all only: abs_le_iff) linarith+
  have small: "(1 / 1000000 :: real) \<le> 1" by simp
  have kpos: "2 \<le> kk" "kk < 8" using k' ln_100_bounds small by linarith+
  then have kb: "2 \<le> \<bar>- kk\<bar>" "\<bar>- kk\<bar> < 8" by simp_all
  have "\<bar>v - (- kk)\<bar> \<le> 1 / 2 ^ 51" unfolding v_def using kb by (rule f64_error_2_8)
  moreover have "(1 / 2 ^ 51 :: real) \<le> 1 / 1000000" by simp
  ultimately have "\<bar>v + kk\<bar> \<le> 1 / 1000000" by simp
  then have d: "\<bar>v + ln 100\<bar> \<le> 2 / 1000000"
    using k' by (simp only: abs_le_iff) linarith
  then have d5: "\<bar>v + ln 100\<bar> \<le> 1 / 100000" by simp
  have e1: "\<bar>np_exp lib v - exp v\<bar> \<le> 1 / 1000000" using d5 by (rule acc)
  have "exp v = exp (- ln 100) * exp (v + ln 100)" by (simp add: exp_add [symmetric])
  then have ev: "exp v = exp (v + ln 100) / 100" by (simp add: exp_minus)
  have "\<bar>exp (v + ln 100) - 1\<bar> \<le> 2 * \<bar>v + ln 100\<bar>" using d by (intro exp_near_1) simp
  then have "\<bar>exp (v + ln 100) - 1\<bar> \<le> 4 / 1000000" using d by simp
  then have e2: "\<bar>exp v - 1 / 100\<bar> \<le> 4 / 100000000"
    unfolding ev by (simp only: abs_le_iff) linarith
  have "g_exp_fp lib 1 = np_exp lib v" by (simp add: g_exp_fp_def Let_def v_def kk_def)
  then show ?thesis using e1 e2 by (simp only: abs_le_iff) linarith
qed

section \<open>The claims\<close>

text \<open>
  C6. Each of the six profiles (linear, exponential, cosine, sigmoid, ease_out_power,
  ease_out_exp) is non-increasing on \<open>[0, 1]\<close>: for \<open>t1 < t2\<close> in the interval,
  \<open>g t1 \<ge> g t2\<close>.
\<close>

theorem profiles_non_increasing:
  assumes "0 \<le> t1" "t1 < t2" "t2 \<le> 1"
  shows "g_linear t1 \<ge> g_linear t2 \<and> g_exp t1 \<ge> g_exp t2 \<and> g_cos t1 \<ge> g_cos t2 \<and>
         g_sigmoid t1 \<ge> g_sigmoid t2 \<and> g_ease_out_power t1 \<ge> g_ease_out_power t2 \<and>
         g_ease_out_exp t1 \<ge> g_ease_out_exp t2"
proof -
  have le: "t1 \<le> t2" using assms(2) by simp
  show ?thesis
    using assms(1,3) le
    by (simp add: g_linear_antimono g_exp_antimono g_cos_antimono g_sigmoid_antimono
        g_ease_out_power_antimono g_ease_out_exp_antimono)
qed

theorem profiles_non_increasing_witness:
  "(0 :: real) \<le> 1 / 4 \<and> (1 / 4 :: real) < 3 / 4 \<and> (3 / 4 :: real) \<le> 1 \<and>
   g_linear (1 / 4) \<ge> g_linear (3 / 4) \<and> g_exp (1 / 4) \<ge> g_exp (3 / 4) \<and>
   g_cos (1 / 4) \<ge> g_cos (3 / 4) \<and> g_sigmoid (1 / 4) \<ge> g_sigmoid (3 / 4) \<and>
   g_ease_out_power (1 / 4) \<ge> g_ease_out_power (3 / 4) \<and>
   g_ease_out_exp (1 / 4) \<ge> g_ease_out_exp (3 / 4)"
proof -
  have h: "(0 :: real) \<le> 1 / 4" "(1 / 4 :: real) < 3 / 4" "(3 / 4 :: real) \<le> 1" by simp_all
  from profiles_non_increasing [OF h] h show ?thesis by blast
qed

text \<open>
  C5. With method \<open>none\<close> the engine returns the cleaned mask cast pixel for pixel to
  0.0 and 1.0: the result does not depend on the width, and no distance or profile enters it.
\<close>

theorem method_none_returns_cast:
  assumes "is_image raw" and "cleaned = smooth_open_close raw 4"
  shows "apply_feathering raw (value_of NONE) w = Inr (astype_float32 cleaned) \<and>
         shape (astype_float32 cleaned) = shape raw \<and>
         (\<forall>y x. in_bounds raw y x \<longrightarrow>
            px (astype_float32 cleaned) y x = (if px cleaned y x then 1 else 0))"
proof -
  have b: "in_bounds cleaned y x = in_bounds raw y x" for y x
    using assms(2) by (simp add: in_bounds_smooth_open_close)
  show ?thesis
    using assms(2)
    by (simp add: apply_feathering_none shape_astype_float32 shape_smooth_open_close
        astype_float32_px b [symmetric] del: value_of.simps)
qed

theorem method_none_returns_cast_witness:
  "is_image row15 \<and>
   apply_feathering row15 (value_of NONE) 10 =
     Inr [[1, 1, 1, 1, 1, 0, 0, 0, 0, 0, 0, 0, 0, 0, 0]] \<and>
   in_bounds row15 0 4 \<and> px (astype_float32 (smooth_open_close row15 4)) 0 4 = 1 \<and>
   in_bounds row15 0 5 \<and> px (astype_float32 (smooth_open_close row15 4)) 0 5 = 0"
proof -
  have a: "astype_float32 row15 = [[1, 1, 1, 1, 1, 0, 0, 0, 0, 0, 0, 0, 0, 0, 0]]"
    by (simp add: astype_float32_def ew_def row15_def)
  have b: "in_bounds row15 0 4" "in_bounds row15 0 5" by (simp_all add: in_bounds_row15)
  have p: "px row15 0 4" "\<not> px row15 0 5" by (simp_all add: px_row15)
  from method_none_returns_cast [OF is_image_row15 refl, of 10] is_image_row15 a b p
  show ?thesis by (simp add: smooth_open_close_row15 del: value_of.simps)
qed

text \<open>
  C7. When the cleaned mask has no True pixel the engine returns the all-zero matte of the
  input's shape, and when it is entirely True the all-one matte, for every method. An
  all-False input stays all-False under cleaning and an all-True input all-True, which
  covers the 10 by 10 scenarios.
\<close>

theorem degenerate_mattes:
  assumes "is_image raw" and "cleaned = smooth_open_close raw 4"
  shows "(\<not> any_px cleaned \<longrightarrow> apply_feathering raw (value_of m) w = Inr (zeros_like raw)) \<and>
         (all_px cleaned \<longrightarrow> apply_feathering raw (value_of m) w = Inr (ones_like raw)) \<and>
         (\<not> any_px raw \<longrightarrow> \<not> any_px cleaned) \<and>
         (all_px raw \<longrightarrow> all_px cleaned)"
proof -
  have s: "shape cleaned = shape raw" using assms(2) by (simp add: shape_smooth_open_close)
  have z: "zeros_like cleaned = zeros_like raw" using s by (rule zeros_like_shape)
  have o: "ones_like cleaned = ones_like raw" using s by (rule ones_like_shape)
  have ic: "is_image cleaned" using s [symmetric] assms(1) by (rule is_image_shape)
  have 1: "apply_feathering raw (value_of m) w = Inr (zeros_like raw)" if e: "\<not> any_px cleaned"
  proof (cases "m = NONE")
    case True
    then show ?thesis
      using e assms(2) z apply_feathering_none [of raw w] by (simp add: astype_float32_empty)
  next
    case False
    then obtain g where "profile_of m = Some g" using profile_of_cases by blast
    from apply_feathering_profile [OF this, of raw w] e assms(2) z
    show ?thesis by (simp add: feather_empty)
  qed
  have 2: "apply_feathering raw (value_of m) w = Inr (ones_like raw)" if f: "all_px cleaned"
  proof (cases "m = NONE")
    case True
    then show ?thesis
      using f assms(2) o apply_feathering_none [of raw w] by (simp add: astype_float32_full)
  next
    case False
    then obtain g where "profile_of m = Some g" using profile_of_cases by blast
    from apply_feathering_profile [OF this, of raw w] f assms(2) o is_image_any [OF ic f]
    show ?thesis by (simp add: feather_full)
  qed
  have 3: "\<not> any_px cleaned" if "\<not> any_px raw"
    using that assms(2) by (simp add: smooth_open_close_empty)
  have 4: "all_px cleaned" if "all_px raw"
    using that assms(2) by (simp add: smooth_open_close_full)
  from 1 2 3 4 show ?thesis by blast
qed

theorem degenerate_mattes_witness:
  "is_image (replicate 10 (replicate 10 False)) \<and>
   \<not> any_px (replicate 10 (replicate 10 False)) \<and>
   apply_feathering (replicate 10 (replicate 10 False)) (value_of LINEAR) 10 =
     Inr (replicate 10 (replicate 10 0)) \<and>
   is_image (replicate 10 (replicate 10 True)) \<and>
   all_px (replicate 10 (replicate 10 True)) \<and>
   apply_feathering (replicate 10 (replicate 10 True)) (value_of SIGMOID) 10 =
     Inr (replicate 10 (replicate 10 1))"
proof -
  let ?F = "replicate 10 (replicate 10 False)"
  let ?T = "replicate 10 (replicate 10 True)"
  have iF: "is_image ?F" and iT: "is_image ?T"
    by (simp_all add: is_image_def list_all_iff)
  have nF: "\<not> any_px ?F" and aT: "all_px ?T"
    by (simp_all add: any_px_def all_px_def list_ex_iff list_all_iff)
  have zF: "zeros_like ?F = replicate 10 (replicate 10 0)"
    and oT: "ones_like ?T = replicate 10 (replicate 10 1)"
    by (simp_all add: zeros_like_def ones_like_def ew_def)
  from degenerate_mattes [OF iF refl, of LINEAR 10] nF zF
  have A: "apply_feathering ?F (value_of LINEAR) 10 = Inr (replicate 10 (replicate 10 0))"
    by (simp del: value_of.simps)
  from degenerate_mattes [OF iT refl, of SIGMOID 10] aT oT
  have B: "apply_feathering ?T (value_of SIGMOID) 10 = Inr (replicate 10 (replicate 10 1))"
    by (simp del: value_of.simps)
  from iF iT nF aT A B show ?thesis by blast
qed

text \<open>
  C3 (as stated): a width \<open>\<le> 0\<close> makes \<open>apply_feathering\<close> fail with a configuration
  error. The code checks nothing about the width: at width 0 and at width -1 it returns a
  matte.
\<close>

theorem nonpositive_width_counterexample:
  "apply_feathering
     [[True, True, True, True, True,
       False, False, False, False, False, False, False, False, False, False]]
     (value_of LINEAR) 0 =
   Inr [[1, 1, 1, 1, 1, 0, 0, 0, 0, 0, 0, 0, 0, 0, 0]] \<and>
   apply_feathering
     [[True, True, True, True, True,
       False, False, False, False, False, False, False, False, False, False]]
     (value_of LINEAR) (- 1) =
   Inr [[1, 1, 1, 1, 1, 0, 0, 0, 0, 0, 0, 0, 0, 0, 0]]"
proof -
  have a: "astype_float32 row15 = [[1, 1, 1, 1, 1, 0, 0, 0, 0, 0, 0, 0, 0, 0, 0]]"
    by (simp add: astype_float32_def ew_def row15_def)
  have "apply_feathering row15 (value_of LINEAR) w = Inr (astype_float32 row15)" if "w \<le> 0" for w
    using that apply_feathering_profile [of LINEAR g_linear row15 w]
    by (simp add: smooth_open_close_row15 feather_nonpositive_width)
  from this [of 0] this [of "- 1"] show ?thesis
    by (simp add: a row15_def [symmetric])
qed

text \<open>
  C3 (amended). For every mask and every method, a width \<open>\<le> 0\<close> raises no error: no
  pixel is within the band, and the engine returns the cleaned mask cast to 0.0 and 1.0.
\<close>

theorem nonpositive_width_returns_cast:
  assumes "is_image raw" and "w \<le> 0"
  shows "apply_feathering raw (value_of m) w = Inr (astype_float32 (smooth_open_close raw 4))"
proof (cases "m = NONE")
  case True
  then show ?thesis using apply_feathering_none [of raw w] by simp
next
  case False
  then obtain g where "profile_of m = Some g" using profile_of_cases by blast
  from apply_feathering_profile [OF this, of raw w] assms(2)
  show ?thesis by (simp add: feather_nonpositive_width)
qed

theorem nonpositive_width_returns_cast_witness:
  "is_image row15 \<and> (0 :: real) \<le> 0 \<and>
   apply_feathering row15 (value_of COSINE) 0 =
     Inr [[1, 1, 1, 1, 1, 0, 0, 0, 0, 0, 0, 0, 0, 0, 0]]"
proof -
  have a: "astype_float32 row15 = [[1, 1, 1, 1, 1, 0, 0, 0, 0, 0, 0, 0, 0, 0, 0]]"
    by (simp add: astype_float32_def ew_def row15_def)
  have w: "(0 :: real) \<le> 0" by simp
  from nonpositive_width_returns_cast [OF is_image_row15 w, of COSINE] is_image_row15 a
  show ?thesis by (simp add: smooth_open_close_row15 del: value_of.simps)
qed

text \<open>
  C2. For every method, sigmoid included, a pixel that is True in the cleaned mask gets
  alpha 1 exactly, and an exterior pixel whose distance to the nearest interior pixel is at
  least the width gets alpha 0 exactly, whatever the profile's values at its end points.
\<close>

theorem interior_one_far_exterior_zero:
  assumes "is_image raw" and "cleaned = smooth_open_close raw 4" and "in_bounds raw y x"
  shows "\<exists>alpha. apply_feathering raw (value_of m) w = Inr alpha \<and>
           (px cleaned y x \<longrightarrow> px alpha y x = 1) \<and>
           (\<not> px cleaned y x \<and> nearest_interior_distance cleaned y x \<ge> w \<longrightarrow> px alpha y x = 0)"
proof (cases "m = NONE")
  case True
  have b: "in_bounds cleaned y x" using assms(2,3) by (simp add: in_bounds_smooth_open_close)
  show ?thesis
    using True apply_feathering_none [of raw w] assms(2) b
    by (simp add: astype_float32_px del: value_of.simps)
next
  case False
  then obtain g where g: "profile_of m = Some g" using profile_of_cases by blast
  have b: "in_bounds cleaned y x" using assms(2,3) by (simp add: in_bounds_smooth_open_close)
  have far: "\<not> px (distance_transform_edt (ew Not cleaned)) y x < w"
    if "any_px cleaned" "nearest_interior_distance cleaned y x \<ge> w"
    using that edt_exact [OF that(1) b] by simp
  have "px (feather cleaned g w) y x = 1" if "px cleaned y x"
    using that by (simp add: px_feather_total [OF b])
  moreover have "px (feather cleaned g w) y x = 0"
    if "\<not> px cleaned y x" "nearest_interior_distance cleaned y x \<ge> w"
    using that far by (auto simp: px_feather_total [OF b])
  ultimately show ?thesis
    using apply_feathering_profile [OF g, of raw w] assms(2) by auto
qed

theorem interior_one_far_exterior_zero_witness:
  "is_image row15 \<and> in_bounds row15 0 2 \<and> in_bounds row15 0 14 \<and>
   px (smooth_open_close row15 4) 0 2 \<and>
   \<not> px (smooth_open_close row15 4) 0 14 \<and>
   nearest_interior_distance (smooth_open_close row15 4) 0 14 \<ge> 10 \<and>
   apply_feathering row15 (value_of SIGMOID) 10 = Inr (feather_sigmoid row15 10) \<and>
   px (feather_sigmoid row15 10) 0 2 = 1 \<and>
   px (feather_sigmoid row15 10) 0 14 = 0"
proof -
  have b: "in_bounds row15 0 2" "in_bounds row15 0 14" by (simp_all add: in_bounds_row15)
  have p: "px (smooth_open_close row15 4) 0 2" "\<not> px (smooth_open_close row15 4) 0 14"
    by (simp_all add: smooth_open_close_row15 px_row15)
  have d: "nearest_interior_distance (smooth_open_close row15 4) 0 14 \<ge> 10"
    by (simp add: smooth_open_close_row15 nearest_row15_14)
  have e: "apply_feathering row15 (value_of SIGMOID) 10 = Inr (feather_sigmoid row15 10)"
    by (simp add: apply_feathering_def Let_def smooth_open_close_row15)
  from interior_one_far_exterior_zero [OF is_image_row15 refl b(1), of SIGMOID 10] p(1) e
  have 1: "px (feather_sigmoid row15 10) 0 2 = 1" by auto
  from interior_one_far_exterior_zero [OF is_image_row15 refl b(2), of SIGMOID 10] p(2) d e
  have 2: "px (feather_sigmoid row15 10) 0 14 = 0" by auto
  from is_image_row15 b p d e 1 2 show ?thesis by blast
qed

text \<open>
  C4. For every mask, method and width the matte has the shape of the input mask and
  every value of it lies in \<open>[0, 1]\<close>.
\<close>

theorem matte_shape_and_range:
  assumes "is_image raw"
  shows "\<exists>alpha. apply_feathering raw (value_of m) w = Inr alpha \<and>
           shape alpha = shape raw \<and>
           (\<forall>row \<in> set alpha. \<forall>v \<in> set row. 0 \<le> v \<and> v \<le> 1)"
proof (cases "m = NONE")
  case True
  let ?a = "astype_float32 (smooth_open_close raw 4)"
  have "shape ?a = shape raw" by (simp add: shape_astype_float32 shape_smooth_open_close)
  moreover have "\<forall>row \<in> set ?a. \<forall>v \<in> set row. 0 \<le> v \<and> v \<le> 1"
    by (rule px_values) (simp add: astype_float32_px in_bounds_shape [OF shape_astype_float32])
  ultimately show ?thesis using True apply_feathering_none [of raw w] by simp
next
  case False
  then obtain g where g: "profile_of m = Some g" using profile_of_cases by blast
  let ?c = "smooth_open_close raw 4"
  let ?a = "feather ?c g w"
  have "shape ?a = shape raw" by (simp add: shape_feather shape_smooth_open_close)
  moreover have "\<forall>row \<in> set ?a. \<forall>v \<in> set row. 0 \<le> v \<and> v \<le> 1"
  proof (rule px_values)
    fix y x assume "in_bounds ?a y x"
    then have b: "in_bounds ?c y x" by (simp add: in_bounds_shape [OF shape_feather])
    show "0 \<le> px ?a y x \<and> px ?a y x \<le> 1"
      using profile_unit [OF g] clip_unit by (simp add: px_feather_total [OF b])
  qed
  ultimately show ?thesis using apply_feathering_profile [OF g, of raw w] by simp
qed

theorem matte_shape_and_range_witness:
  "is_image row15 \<and>
   apply_feathering row15 (value_of EXPONENTIAL) 10 = Inr (feather_exp row15 10) \<and>
   shape (feather_exp row15 10) = [15] \<and>
   0 \<le> px (feather_exp row15 10) 0 7 \<and> px (feather_exp row15 10) 0 7 \<le> 1"
proof -
  have e: "apply_feathering row15 (value_of EXPONENTIAL) 10 = Inr (feather_exp row15 10)"
    by (simp add: apply_feathering_def Let_def smooth_open_close_row15)
  have s: "shape row15 = [15]" by (simp add: shape_def row15_def)
  from matte_shape_and_range [OF is_image_row15, of EXPONENTIAL 10]
  obtain alpha where al: "apply_feathering row15 (value_of EXPONENTIAL) 10 = Inr alpha"
      "shape alpha = shape row15" "\<forall>row \<in> set alpha. \<forall>v \<in> set row. 0 \<le> v \<and> v \<le> 1"
    by blast
  have eq: "alpha = feather_exp row15 10" using al(1) e by simp
  have sh: "shape (feather_exp row15 10) = [15]" using al(2) eq s by simp
  then have l: "length (feather_exp row15 10) = 1" "length (feather_exp row15 10 ! 0) = 15"
    by (auto simp: shape_def map_eq_Cons_conv)
  have "feather_exp row15 10 ! 0 \<in> set (feather_exp row15 10)" using l(1) by simp
  moreover have "feather_exp row15 10 ! 0 ! 7 \<in> set (feather_exp row15 10 ! 0)"
    using l(2) by simp
  ultimately have "0 \<le> feather_exp row15 10 ! 0 ! 7 \<and> feather_exp row15 10 ! 0 ! 7 \<le> 1"
    using al(3) eq by blast
  then have r: "0 \<le> px (feather_exp row15 10) 0 7 \<and> px (feather_exp row15 10) 0 7 \<le> 1"
    by (simp add: px_def)
  from is_image_row15 e sh r show ?thesis by blast
qed




text \<open>
  C9 (as stated): with method exponential a pixel at normalized distance 1, that is at a
  distance equal to the width, gets alpha within 0.001 of 0.01. In the row of five True
  and ten False pixels, which the cleaning leaves as it is, the last pixel is at distance
  10 from the interior; at width 10 it is outside the band \<open>D_out < w\<close> and its alpha is 0,
  in exact arithmetic and with the roundings alike (10 is a float64, and no profile is
  evaluated for the pixel).
\<close>

theorem exponential_band_end_counterexample:
  "smooth_open_close
     [[True, True, True, True, True,
       False, False, False, False, False, False, False, False, False, False]] 4 =
     [[True, True, True, True, True,
       False, False, False, False, False, False, False, False, False, False]] \<and>
   nearest_interior_distance
     [[True, True, True, True, True,
       False, False, False, False, False, False, False, False, False, False]] 0 14 / 10 = 1 \<and>
   apply_feathering
     [[True, True, True, True, True,
       False, False, False, False, False, False, False, False, False, False]]
     (value_of EXPONENTIAL) 10 =
     Inr (feather_exp
       [[True, True, True, True, True,
         False, False, False, False, False, False, False, False, False, False]] 10) \<and>
   px (feather_exp
       [[True, True, True, True, True,
         False, False, False, False, False, False, False, False, False, False]] 10) 0 14 = 0 \<and>
   \<not> \<bar>px (feather_exp
       [[True, True, True, True, True,
         False, False, False, False, False, False, False, False, False, False]] 10) 0 14 - 0.01\<bar>
     \<le> 0.001 \<and>
   f64 (nearest_interior_distance
     [[True, True, True, True, True,
       False, False, False, False, False, False, False, False, False, False]] 0 14) = 10 \<and>
   apply_feathering_fp exact_numpy
     [[True, True, True, True, True,
       False, False, False, False, False, False, False, False, False, False]]
     (value_of EXPONENTIAL) 10 =
     Inr (feather_exp_fp exact_numpy
       [[True, True, True, True, True,
         False, False, False, False, False, False, False, False, False, False]] 10) \<and>
   px (feather_exp_fp exact_numpy
       [[True, True, True, True, True,
         False, False, False, False, False, False, False, False, False, False]] 10) 0 14 = 0 \<and>
   \<not> \<bar>px (feather_exp_fp exact_numpy
       [[True, True, True, True, True,
         False, False, False, False, False, False, False, False, False, False]] 10) 0 14 - 0.01\<bar>
     \<le> 0.001"
proof -
  have b: "in_bounds row15 0 14" by (simp add: in_bounds_row15)
  have n: "\<not> px row15 0 14" by (simp add: px_row15)
  have e: "px (distance_transform_edt (ew Not row15)) 0 14 = 10"
    using edt_exact [OF any_px_row15 b] by (simp add: nearest_row15_14)
  have z: "px (feather_exp row15 10) 0 14 = 0"
    using b e by (simp add: feather_exp_def px_feather_total px_row15)
  have a: "apply_feathering row15 (value_of EXPONENTIAL) 10 = Inr (feather_exp row15 10)"
    by (simp add: apply_feathering_def Let_def smooth_open_close_row15)
  have d: "f64 (nearest_interior_distance row15 0 14) = 10"
    by (simp add: nearest_row15_14 f64_10)
  have zf: "px (feather_exp_fp exact_numpy row15 10) 0 14 = 0"
    unfolding feather_exp_fp_def
    by (simp add: px_feather_fp_exterior [OF any_px_row15 b n] d)
  have af: "apply_feathering_fp exact_numpy row15 (value_of EXPONENTIAL) 10 =
      Inr (feather_exp_fp exact_numpy row15 10)"
    by (simp add: apply_feathering_fp_def Let_def smooth_open_close_row15)
  have "smooth_open_close row15 4 = row15 \<and>
        nearest_interior_distance row15 0 14 / 10 = 1 \<and>
        apply_feathering row15 (value_of EXPONENTIAL) 10 = Inr (feather_exp row15 10) \<and>
        px (feather_exp row15 10) 0 14 = 0 \<and>
        \<not> \<bar>px (feather_exp row15 10) 0 14 - 0.01\<bar> \<le> 0.001 \<and>
        f64 (nearest_interior_distance row15 0 14) = 10 \<and>
        apply_feathering_fp exact_numpy row15 (value_of EXPONENTIAL) 10 =
          Inr (feather_exp_fp exact_numpy row15 10) \<and>
        px (feather_exp_fp exact_numpy row15 10) 0 14 = 0 \<and>
        \<not> \<bar>px (feather_exp_fp exact_numpy row15 10) 0 14 - 0.01\<bar> \<le> 0.001"
    using a z d af zf
    by (simp add: smooth_open_close_row15 nearest_row15_14 del: value_of.simps)
  then show ?thesis unfolding row15_def .
qed

text \<open>
  C9 (amended). The exponential profile is \<open>g t = exp (- k t)\<close> with \<open>k = ln 100\<close>, so
  \<open>g 1\<close> is 0.01 within 0.001, also as the code computes it in float64 with a library
  accurate to 0.000001. In the matte of the method exponential an exterior pixel at
  normalized distance 1, whose computed distance equals the width, is outside the band
  and gets alpha 0 exactly, whatever the library computes for the profile.
\<close>

theorem exponential_band_end_zero:
  assumes "is_image raw" and "cleaned = smooth_open_close raw 4"
    and "in_bounds raw y x" and "\<not> px cleaned y x" and "any_px cleaned"
    and "f64 (nearest_interior_distance cleaned y x) = w"
  shows "g_exp t = exp (- ln 100 * t) \<and> \<bar>g_exp 1 - 1 / 100\<bar> \<le> 1 / 1000 \<and>
         (\<bar>np_log lib 100 - ln 100\<bar> \<le> 1 / 1000000 \<and>
          (\<forall>v. \<bar>v + ln 100\<bar> \<le> 1 / 100000 \<longrightarrow> \<bar>np_exp lib v - exp v\<bar> \<le> 1 / 1000000) \<longrightarrow>
          \<bar>g_exp_fp lib 1 - 1 / 100\<bar> \<le> 1 / 1000) \<and>
         apply_feathering_fp lib raw (value_of EXPONENTIAL) w =
           Inr (feather_exp_fp lib cleaned w) \<and>
         px (feather_exp_fp lib cleaned w) y x = 0"
proof -
  have b: "in_bounds cleaned y x" using assms(2,3) by (simp add: in_bounds_smooth_open_close)
  have g: "g_exp t = exp (- ln 100 * t)" by (simp add: g_exp_def Let_def)
  have g1: "\<bar>g_exp 1 - 1 / 100\<bar> \<le> 1 / 1000" by (simp add: g_exp_1)
  have gf: "\<bar>g_exp_fp lib 1 - 1 / 100\<bar> \<le> 1 / 1000"
    if "\<bar>np_log lib 100 - ln 100\<bar> \<le> 1 / 1000000"
      and "\<forall>v. \<bar>v + ln 100\<bar> \<le> 1 / 100000 \<longrightarrow> \<bar>np_exp lib v - exp v\<bar> \<le> 1 / 1000000"
    using that by (intro g_exp_fp_1) blast+
  have a: "apply_feathering_fp lib raw (value_of EXPONENTIAL) w =
      Inr (feather_exp_fp lib cleaned w)"
    using assms(2) by (simp add: apply_feathering_fp_def Let_def)
  have z: "px (feather_exp_fp lib cleaned w) y x = 0"
    unfolding feather_exp_fp_def
    by (simp add: px_feather_fp_exterior [OF assms(5) b assms(4)] assms(6))
  from g g1 gf a z show ?thesis by blast
qed

theorem exponential_band_end_zero_witness:
  "is_image row15 \<and> in_bounds row15 0 14 \<and>
   \<not> px (smooth_open_close row15 4) 0 14 \<and>
   any_px (smooth_open_close row15 4) \<and>
   f64 (nearest_interior_distance (smooth_open_close row15 4) 0 14) = 10 \<and>
   \<bar>np_log exact_numpy 100 - ln 100\<bar> \<le> 1 / 1000000 \<and>
   \<bar>g_exp_fp exact_numpy 1 - 1 / 100\<bar> \<le> 1 / 1000 \<and>
   apply_feathering_fp exact_numpy row15 (value_of EXPONENTIAL) 10 =
     Inr (feather_exp_fp exact_numpy (smooth_open_close row15 4) 10) \<and>
   px (feather_exp_fp exact_numpy (smooth_open_close row15 4) 10) 0 14 = 0"
proof -
  have b: "in_bounds row15 0 14" by (simp add: in_bounds_row15)
  have p: "\<not> px (smooth_open_close row15 4) 0 14"
    by (simp add: smooth_open_close_row15 px_row15)
  have a: "any_px (smooth_open_close row15 4)"
    by (simp add: smooth_open_close_row15 any_px_row15)
  have d: "f64 (nearest_interior_distance (smooth_open_close row15 4) 0 14) = 10"
    by (simp add: smooth_open_close_row15 nearest_row15_14 f64_10)
  have l: "\<bar>np_log exact_numpy 100 - ln 100\<bar> \<le> 1 / 1000000"
    by (simp add: exact_numpy_def)
  have e: "\<forall>v. \<bar>v + ln 100\<bar> \<le> 1 / 100000 \<longrightarrow> \<bar>np_exp exact_numpy v - exp v\<bar> \<le> 1 / 1000000"
    by (simp add: exact_numpy_def)
  note t = exponential_band_end_zero [OF is_image_row15 refl b p a d, of 1 exact_numpy]
  have gf: "\<bar>g_exp_fp exact_numpy 1 - 1 / 100\<bar> \<le> 1 / 1000" using t l e by blast
  from t is_image_row15 b p a d l gf show ?thesis by blast
qed

text \<open>
  C10. A non-empty input can give a fully transparent matte without any error. In a grid
  of at least two columns with a single True pixel, the radius-4 erosion removes the
  pixel, the cleaned mask is empty, and for every method and every width (every positive
  one in particular) the engine returns the all-zero matte.
\<close>

theorem single_pixel_vanishes:
  assumes "cy < h" and "cx < n" and "2 \<le> n"
  shows "is_image (single_pixel h n cy cx) \<and>
         any_px (single_pixel h n cy cx) \<and>
         \<not> any_px (smooth_open_close (single_pixel h n cy cx) 4) \<and>
         apply_feathering (single_pixel h n cy cx) (value_of m) width =
           Inr (zeros_like (single_pixel h n cy cx))"
proof -
  let ?M = "single_pixel h n cy cx"
  let ?c = "smooth_open_close ?M 4"
  have i: "is_image ?M" using assms by (intro is_image_single_pixel) simp_all
  have a: "any_px ?M"
    using assms by (simp add: interior_nonempty interior_single_pixel)
  have e: "\<not> any_px ?c"
    using assms by (intro smooth_open_close_eroded_away single_pixel_eroded)
  have z: "zeros_like ?c = zeros_like ?M"
    by (rule zeros_like_shape) (rule shape_smooth_open_close)
  have "apply_feathering ?M (value_of m) width = Inr (zeros_like ?M)"
  proof (cases "m = NONE")
    case True
    then show ?thesis
      using e z apply_feathering_none [of ?M width] by (simp add: astype_float32_empty)
  next
    case False
    then obtain g where "profile_of m = Some g" using profile_of_cases by blast
    from apply_feathering_profile [OF this, of ?M width] e z
    show ?thesis by (simp add: feather_empty)
  qed
  with i a e show ?thesis by blast
qed

theorem single_pixel_vanishes_witness:
  "(10 :: nat) < 21 \<and> (2 :: nat) \<le> 21 \<and>
   is_image (single_pixel 21 21 10 10) \<and>
   any_px (single_pixel 21 21 10 10) \<and>
   px (single_pixel 21 21 10 10) 10 10 \<and>
   \<not> any_px (smooth_open_close (single_pixel 21 21 10 10) 4) \<and>
   apply_feathering (single_pixel 21 21 10 10) (value_of EASE_OUT_POWER) 10 =
     Inr (replicate 21 (replicate 21 0))"
proof -
  have h: "(10 :: nat) < 21" "(2 :: nat) \<le> 21" by simp_all
  have z: "zeros_like (single_pixel 21 21 10 10) = replicate 21 (replicate 21 0)"
    by (simp add: zeros_like_def ew_def single_pixel_def comp_def map_replicate_const)
  have p: "px (single_pixel 21 21 10 10) 10 10"
    by (simp add: px_single_pixel in_bounds_single_pixel)
  from single_pixel_vanishes [OF h(1) h(1) h(2), of EASE_OUT_POWER 10] h z p
  show ?thesis by (simp del: value_of.simps)
qed

text \<open>
  C8 (as stated): the structuring element is isotropic, and the cleaning radius defaults
  to 4. The radius-4 element has the offset \<open>(1, 4)\<close> and not \<open>(4, 1)\<close>, so it is not
  its own transpose: a blob of the element's shape keeps its centre under the cleaning,
  and the transposed blob is erased. Called without a radius, \<open>smooth_open_close\<close>
  uses \<open>r = 2\<close>, which keeps a run of three pixels that radius 4 removes.
\<close>

theorem isotropic_default_counterexample:
  "(1, 4) \<in> set (kernel_offsets (disk_kernel 4)) \<and>
   (4, 1) \<notin> set (kernel_offsets (disk_kernel 4)) \<and>
   transpose blob9 = blob9_transposed \<and>
   px (smooth_open_close blob9 4) 4 4 \<and>
   \<not> any_px (smooth_open_close blob9_transposed 4) \<and>
   smooth_open_close_default
     [[True, True, True, False, False, False, False, False, False, False]] =
     [[True, True, True, False, False, False, False, False, False, False]] \<and>
   smooth_open_close
     [[True, True, True, False, False, False, False, False, False, False]] 4 =
     [[False, False, False, False, False, False, False, False, False, False]]"
proof -
  have k: "(1, 4) \<in> set (kernel_offsets (disk_kernel 4))"
      "(4, 1) \<notin> set (kernel_offsets (disk_kernel 4))"
    by (simp_all add: disk_kernel_region)
  have d: "smooth_open_close_default row10 = row10"
    by (simp add: smooth_open_close_default_def row10_default)
  from k blob9_transpose blob9_kept blob9_transposed_erased d row10_4
  show ?thesis unfolding row10_def by blast
qed

text \<open>
  C8 (amended). \<open>smooth_open_close\<close> applies an opening (erosion, then dilation) and then
  a closing (dilation, then erosion), in that order, with one structuring element. The
  element has \<open>2 r + 1\<close> rows and columns; its offsets form a disk-like region inside
  the square \<open>\<bar>dy\<bar>, \<bar>dx\<bar> \<le> r\<close> that reaches the four sides of the square and is
  mirror-symmetric in both axes; it is not isotropic. On booleans each erosion asks
  every kernel neighbour inside the image to be True and each dilation asks for one. The
  function's own default radius is 2; the engine always passes radius 4, whatever the
  method and the width.
\<close>

theorem open_then_close_with_ellipse:
  assumes "is_image raw"
  shows
  "smooth_open_close raw r =
     to_bool (morphologyEx_CLOSE (morphologyEx_OPEN (to_u8 raw) (disk_kernel r)) (disk_kernel r)) \<and>
   morphologyEx_OPEN (to_u8 raw) (disk_kernel r) =
     dilate (erode (to_u8 raw) (disk_kernel r)) (disk_kernel r) \<and>
   morphologyEx_CLOSE src (disk_kernel r) = erode (dilate src (disk_kernel r)) (disk_kernel r) \<and>
   smooth_open_close raw r =
     (let K = kernel_offsets (disk_kernel r) in
      erode_bool K (dilate_bool K (dilate_bool K (erode_bool K raw)))) \<and>
   shape (disk_kernel r) = replicate (2 * r + 1) (2 * r + 1) \<and>
   ((dy, dx) \<in> set (kernel_offsets (disk_kernel r)) \<longleftrightarrow>
      \<bar>dy\<bar> \<le> int r \<and> (dx = 0 \<or> (2 * \<bar>dx\<bar> - 1)\<^sup>2 + 4 * dy\<^sup>2 \<le> 4 * (int r)\<^sup>2)) \<and>
   ((dy, dx) \<in> set (kernel_offsets (disk_kernel r)) \<longrightarrow>
      \<bar>dy\<bar> \<le> int r \<and> \<bar>dx\<bar> \<le> int r \<and>
      (- dy, dx) \<in> set (kernel_offsets (disk_kernel r)) \<and>
      (dy, - dx) \<in> set (kernel_offsets (disk_kernel r))) \<and>
   {(0, 0), (int r, 0), (- int r, 0), (0, int r), (0, - int r)}
     \<subseteq> set (kernel_offsets (disk_kernel r)) \<and>
   (1, 4) \<in> set (kernel_offsets (disk_kernel 4)) \<and>
   (4, 1) \<notin> set (kernel_offsets (disk_kernel 4)) \<and>
   smooth_open_close_default raw = smooth_open_close raw 2 \<and>
   apply_feathering raw (value_of NONE) w = Inr (astype_float32 (smooth_open_close raw 4)) \<and>
   (profile_of m = Some g \<longrightarrow>
      apply_feathering raw (value_of m) w = Inr (feather (smooth_open_close raw 4) g w)) \<and>
   (profile_fp lib m = Some g' \<longrightarrow>
      apply_feathering_fp lib raw (value_of m) w =
        Inr (feather_fp (smooth_open_close raw 4) g' w))"
proof -
  have 1: "smooth_open_close raw r =
     to_bool (morphologyEx_CLOSE (morphologyEx_OPEN (to_u8 raw) (disk_kernel r)) (disk_kernel r))"
    by (simp add: smooth_open_close_def Let_def)
  have 2: "morphologyEx_OPEN (to_u8 raw) (disk_kernel r) =
      dilate (erode (to_u8 raw) (disk_kernel r)) (disk_kernel r)"
    by (simp add: morphologyEx_OPEN_def)
  have 3: "morphologyEx_CLOSE src (disk_kernel r) =
      erode (dilate src (disk_kernel r)) (disk_kernel r)"
    by (simp add: morphologyEx_CLOSE_def)
  have 5: "shape (disk_kernel r) = replicate (2 * r + 1) (2 * r + 1)"
  proof -
    have "length row = 2 * r + 1" if "row \<in> set (disk_kernel r)" for row
      using that length_disk_kernel_row [of _ r]
      by (auto simp: in_set_conv_nth length_disk_kernel)
    then have "map length (disk_kernel r) = map (\<lambda>_. 2 * r + 1) (disk_kernel r)"
      by (intro map_cong) simp_all
    then show ?thesis
      by (simp only: shape_def map_replicate_const length_disk_kernel)
  qed
  have 7: "\<bar>dy\<bar> \<le> int r \<and> \<bar>dx\<bar> \<le> int r \<and>
      (- dy, dx) \<in> set (kernel_offsets (disk_kernel r)) \<and>
      (dy, - dx) \<in> set (kernel_offsets (disk_kernel r))"
    if "(dy, dx) \<in> set (kernel_offsets (disk_kernel r))"
    using disk_kernel_box [OF that] disk_kernel_sym [OF that] by blast
  have 8: "{(0, 0), (int r, 0), (- int r, 0), (0, int r), (0, - int r)}
      \<subseteq> set (kernel_offsets (disk_kernel r))"
    using disk_kernel_origin [of r] disk_kernel_axes [of r] by blast
  have 9: "smooth_open_close_default raw = smooth_open_close raw 2"
    by (simp add: smooth_open_close_default_def)
  have 10: "apply_feathering raw (value_of m) w = Inr (feather (smooth_open_close raw 4) g w)"
    if "profile_of m = Some g"
    using that by (rule apply_feathering_profile)
  have 11: "apply_feathering_fp lib raw (value_of m) w =
      Inr (feather_fp (smooth_open_close raw 4) g' w)"
    if "profile_fp lib m = Some g'"
    using that by (rule apply_feathering_fp_profile)
  have 12: "(1, 4) \<in> set (kernel_offsets (disk_kernel 4))"
      "(4, 1) \<notin> set (kernel_offsets (disk_kernel 4))"
    by (simp_all add: disk_kernel_region)
  from 1 2 3 smooth_open_close_bool [of raw r] 5 disk_kernel_region [of dy dx r] 7 8 9
    apply_feathering_none [of raw w] 10 11 12
  show ?thesis by blast
qed

theorem open_then_close_with_ellipse_witness:
  "is_image row15 \<and>
   smooth_open_close row15 4 =
     to_bool (morphologyEx_CLOSE (morphologyEx_OPEN (to_u8 row15) (disk_kernel 4)) (disk_kernel 4)) \<and>
   smooth_open_close row15 4 = row15 \<and>
   shape (disk_kernel 4) = [9, 9, 9, 9, 9, 9, 9, 9, 9] \<and>
   (1, 4) \<in> set (kernel_offsets (disk_kernel 4)) \<and>
   (- 1, 4) \<in> set (kernel_offsets (disk_kernel 4)) \<and>
   (1, - 4) \<in> set (kernel_offsets (disk_kernel 4)) \<and>
   (2, 4) \<notin> set (kernel_offsets (disk_kernel 4)) \<and>
   (0, 0) \<in> set (kernel_offsets (disk_kernel 4)) \<and>
   (4, 0) \<in> set (kernel_offsets (disk_kernel 4)) \<and>
   (0, - 4) \<in> set (kernel_offsets (disk_kernel 4)) \<and>
   smooth_open_close_default row15 = smooth_open_close row15 2 \<and>
   profile_of COSINE = Some g_cos \<and>
   apply_feathering row15 (value_of COSINE) 10 = Inr (feather (smooth_open_close row15 4) g_cos 10) \<and>
   apply_feathering row15 (value_of COSINE) 3 = Inr (feather (smooth_open_close row15 4) g_cos 3) \<and>
   profile_fp exact_numpy LINEAR = Some g_linear_fp \<and>
   apply_feathering_fp exact_numpy row15 (value_of LINEAR) 10 =
     Inr (feather_fp (smooth_open_close row15 4) g_linear_fp 10)"
proof -
  note t = open_then_close_with_ellipse
    [OF is_image_row15, of 4 "to_u8 row15" 1 4 10 COSINE g_cos exact_numpy "g_cos_fp exact_numpy"]
  note u = open_then_close_with_ellipse
    [OF is_image_row15, of 4 "to_u8 row15" 2 4 3 COSINE g_cos exact_numpy "g_cos_fp exact_numpy"]
  note v = open_then_close_with_ellipse
    [OF is_image_row15, of 4 "to_u8 row15" 2 4 10 LINEAR g_linear exact_numpy g_linear_fp]
  have p: "profile_of COSINE = Some g_cos" by simp
  have q: "profile_fp exact_numpy LINEAR = Some g_linear_fp" by simp
  have a: "smooth_open_close row15 4 =
     to_bool (morphologyEx_CLOSE (morphologyEx_OPEN (to_u8 row15) (disk_kernel 4)) (disk_kernel 4))"
    using t by blast
  have s: "shape (disk_kernel 4) = [9, 9, 9, 9, 9, 9, 9, 9, 9]"
  proof -
    have "shape (disk_kernel 4) = replicate (2 * 4 + 1) (2 * 4 + 1)" using t by blast
    then show ?thesis by (simp add: eval_nat_numeral)
  qed
  have m1: "(1, 4) \<in> set (kernel_offsets (disk_kernel 4))"
  proof -
    have "(1, 4) \<in> set (kernel_offsets (disk_kernel 4)) \<longleftrightarrow>
      \<bar>1 :: int\<bar> \<le> int 4 \<and> ((4 :: int) = 0 \<or> (2 * \<bar>4 :: int\<bar> - 1)\<^sup>2 + 4 * 1\<^sup>2 \<le> 4 * (int 4)\<^sup>2)"
      using t by blast
    then show ?thesis by simp
  qed
  have m2: "(- 1, 4) \<in> set (kernel_offsets (disk_kernel 4))"
      "(1, - 4) \<in> set (kernel_offsets (disk_kernel 4))"
    using t m1 by blast+
  have m3: "(2, 4) \<notin> set (kernel_offsets (disk_kernel 4))"
  proof -
    have "(2, 4) \<in> set (kernel_offsets (disk_kernel 4)) \<longleftrightarrow>
      \<bar>2 :: int\<bar> \<le> int 4 \<and> ((4 :: int) = 0 \<or> (2 * \<bar>4 :: int\<bar> - 1)\<^sup>2 + 4 * 2\<^sup>2 \<le> 4 * (int 4)\<^sup>2)"
      using u by blast
    then show ?thesis by simp
  qed
  have ax: "{(0, 0), (int 4, 0), (- int 4, 0), (0, int 4), (0, - int 4)}
      \<subseteq> set (kernel_offsets (disk_kernel 4))"
    using t by blast
  then have m4: "(0, 0) \<in> set (kernel_offsets (disk_kernel 4))"
      "(4, 0) \<in> set (kernel_offsets (disk_kernel 4))"
      "(0, - 4) \<in> set (kernel_offsets (disk_kernel 4))"
    by simp_all
  have df: "smooth_open_close_default row15 = smooth_open_close row15 2" using t by blast
  have e1: "apply_feathering row15 (value_of COSINE) 10 =
      Inr (feather (smooth_open_close row15 4) g_cos 10)"
    using t p by blast
  have e2: "apply_feathering row15 (value_of COSINE) 3 =
      Inr (feather (smooth_open_close row15 4) g_cos 3)"
    using u p by blast
  have e3: "apply_feathering_fp exact_numpy row15 (value_of LINEAR) 10 =
      Inr (feather_fp (smooth_open_close row15 4) g_linear_fp 10)"
    using v q by blast
  from is_image_row15 a smooth_open_close_row15 s m1 m2 m3 m4 df p e1 e2 q e3
  show ?thesis by blast
qed

end
